theory Spec2Isabelle
  imports Main
begin

section \<open>Data model\<close>

text \<open>
  The Django models of \<^verbatim>\<open>products/models.py\<close>, \<^verbatim>\<open>orders/models.py\<close> and
  \<^verbatim>\<open>payments/models.py\<close>, reduced to the columns the order and payment logic reads
  or writes. A \<^verbatim>\<open>DecimalField(decimal_places=2)\<close> is an integer number of cents, so
  that \<^verbatim>\<open>Decimal(str(quantity)) * price\<close> is integer multiplication. The
  \<^verbatim>\<open>choices\<close> of a status column are a datatype. Timestamps kept by Django itself
  (\<^verbatim>\<open>created_at\<close>, \<^verbatim>\<open>updated_at\<close>) are left out; \<^verbatim>\<open>completed_at\<close> is kept, the clock
  being an argument \<open>now\<close> of the operations that read it.
\<close>

datatype product_status = Active | Inactive | Out_of_stock

datatype order_status = Pending | Paid | Processing | Shipped | Delivered | Cancelled

datatype payment_status =
  Pay_pending | Pay_processing | Success | Failed | Pay_cancelled | Refunded

record product =
  price :: int
  stock :: int
  pstatus :: product_status

record order =
  user :: nat
  total_amount :: int
  status :: order_status
  order_notes :: string

record order_item =
  item_id :: nat
  order_id :: nat
  product_id :: nat
  quantity :: int
  item_price :: int
  subtotal :: int

record payment =
  pay_order :: nat
  provider :: string
  transaction_id :: string
  amount :: int
  currency :: string
  pay_status :: payment_status
  raw_response :: string
  error_message :: string
  refund_metadata :: "string option"
  completed_at :: "nat option"

text \<open>
  Python exceptions are values. The constructor is the exception class, which is what an
  \<^verbatim>\<open>except\<close> clause tests; the string is the fixed part of the message (the values
  interpolated by the f-strings are dropped).
\<close>

datatype error =
  ValueError string
  | ValidationError string
  | ValidationErrorList "string list"
  | DoesNotExist string
  | MultipleObjectsReturned string
  | IntegrityError string
  | DatabaseError string
  | ProviderException string

datatype log_level = Debug | Info | Warning | Error

text \<open>
  The database and the log. \<open>products\<close>, \<open>orders\<close> and \<open>payments\<close> are tables keyed by
  primary key; \<open>items\<close> is the \<^verbatim>\<open>order_items\<close> table in insertion order, which is its
  \<^verbatim>\<open>ordering = ['id']\<close>. A sequence field holds the last primary key handed out, so a new
  row gets the successor, which is never 0.
\<close>

record state =
  products :: "nat \<rightharpoonup> product"
  orders :: "nat \<rightharpoonup> order"
  items :: "order_item list"
  payments :: "nat \<rightharpoonup> payment"
  order_seq :: nat
  item_seq :: nat
  payment_seq :: nat
  logs :: "(log_level \<times> string) list"

definition log :: "log_level \<Rightarrow> string \<Rightarrow> state \<Rightarrow> state" where
  "log lvl msg s = s\<lparr>logs := logs s @ [(lvl, msg)]\<rparr>"

text \<open>
  \<^verbatim>\<open>@transaction.atomic\<close>: when the wrapped function raises, every table and sequence goes
  back to what it was on entry. The log is not part of the database and keeps its lines.
\<close>

definition atomic :: "(state \<Rightarrow> (error + 'a) \<times> state) \<Rightarrow> state \<Rightarrow> (error + 'a) \<times> state" where
  "atomic f s =
     (case f s of
        (Inl e, s') \<Rightarrow> (Inl e, s\<lparr>logs := logs s'\<rparr>)
      | (Inr v, s') \<Rightarrow> (Inr v, s'))"

section \<open>Product: availability and stock\<close>

definition is_available :: "product \<Rightarrow> bool" where
  "is_available p = (pstatus p = Active \<and> stock p > 0)"

text \<open>
  \<^verbatim>\<open>Product.reduce_stock\<close> and \<^verbatim>\<open>Product.increase_stock\<close> on the Python object: the
  result is the exception raised, or the object as it is when \<^verbatim>\<open>save\<close> is called.
\<close>

definition reduce_stock :: "product \<Rightarrow> int \<Rightarrow> error + product" where
  "reduce_stock p q =
     (if q \<le> 0 then Inl (ValueError ''Quantity must be positive'')
      else if stock p < q then Inl (ValueError ''Insufficient stock'')
      else
        let p1 = p\<lparr>stock := stock p - q\<rparr>;
            p2 = (if stock p1 = 0 then p1\<lparr>pstatus := Out_of_stock\<rparr> else p1)
        in Inr p2)"

definition increase_stock :: "product \<Rightarrow> int \<Rightarrow> error + product" where
  "increase_stock p q =
     (if q \<le> 0 then Inl (ValueError ''Quantity must be positive'')
      else
        let p1 = p\<lparr>stock := stock p + q\<rparr>;
            p2 = (if pstatus p1 = Out_of_stock then p1\<lparr>pstatus := Active\<rparr> else p1)
        in Inr p2)"

text \<open>
  The same two methods called on \<^verbatim>\<open>item.product\<close>: the related row is fetched from the
  table when the attribute is read, and \<^verbatim>\<open>save(update_fields=...)\<close> writes it back. An
  exception leaves the table as it was.
\<close>

definition product_reduce_stock :: "state \<Rightarrow> nat \<Rightarrow> int \<Rightarrow> (error + unit) \<times> state" where
  "product_reduce_stock s pid q =
     (case products s pid of
        None \<Rightarrow> (Inl (DoesNotExist ''Product''), s)
      | Some p \<Rightarrow>
          (case reduce_stock p q of
             Inl e \<Rightarrow> (Inl e, s)
           | Inr p' \<Rightarrow> (Inr (), s\<lparr>products := (products s)(pid \<mapsto> p')\<rparr>)))"

definition product_increase_stock :: "state \<Rightarrow> nat \<Rightarrow> int \<Rightarrow> (error + unit) \<times> state" where
  "product_increase_stock s pid q =
     (case products s pid of
        None \<Rightarrow> (Inl (DoesNotExist ''Product''), s)
      | Some p \<Rightarrow>
          (case increase_stock p q of
             Inl e \<Rightarrow> (Inl e, s)
           | Inr p' \<Rightarrow> (Inr (), s\<lparr>products := (products s)(pid \<mapsto> p')\<rparr>)))"

section \<open>Order and OrderItem\<close>

text \<open>\<^verbatim>\<open>self.items.all()\<close>: the rows of one order, in primary-key order.\<close>

definition order_items :: "state \<Rightarrow> nat \<Rightarrow> order_item list" where
  "order_items s oid = filter (\<lambda>it. order_id it = oid) (items s)"

definition calculate_total :: "state \<Rightarrow> nat \<Rightarrow> int" where
  "calculate_total s oid = foldl (\<lambda>total it. total + subtotal it) 0 (order_items s oid)"

text \<open>
  \<^verbatim>\<open>save(update_fields=[...])\<close> writes the named columns of the row; Django raises
  \<^verbatim>\<open>DatabaseError\<close> when no row has the primary key.
\<close>

definition recalculate_and_save :: "state \<Rightarrow> nat \<Rightarrow> (error + unit) \<times> state" where
  "recalculate_and_save s oid =
     (case orders s oid of
        None \<Rightarrow> (Inl (DatabaseError ''Save with update_fields did not affect any rows''), s)
      | Some row \<Rightarrow>
          (Inr (), s\<lparr>orders := (orders s)(oid \<mapsto> row\<lparr>total_amount := calculate_total s oid\<rparr>)\<rparr>))"

definition save_status :: "state \<Rightarrow> nat \<Rightarrow> order_status \<Rightarrow> (error + unit) \<times> state" where
  "save_status s oid st =
     (case orders s oid of
        None \<Rightarrow> (Inl (DatabaseError ''Save with update_fields did not affect any rows''), s)
      | Some row \<Rightarrow> (Inr (), s\<lparr>orders := (orders s)(oid \<mapsto> row\<lparr>status := st\<rparr>)\<rparr>))"

text \<open>
  The loop of \<^verbatim>\<open>mark_as_paid\<close>; an exception of \<^verbatim>\<open>reduce_stock\<close> leaves the loop with
  the rows written so far.
\<close>

fun reduce_items :: "state \<Rightarrow> order_item list \<Rightarrow> (error + unit) \<times> state" where
  "reduce_items s [] = (Inr (), s)"
| "reduce_items s (it # its) =
     (case product_reduce_stock s (product_id it) (quantity it) of
        (Inl e, s') \<Rightarrow> (Inl e, s')
      | (Inr u, s') \<Rightarrow> reduce_items s' its)"

fun increase_items :: "state \<Rightarrow> order_item list \<Rightarrow> (error + unit) \<times> state" where
  "increase_items s [] = (Inr (), s)"
| "increase_items s (it # its) =
     (case product_increase_stock s (product_id it) (quantity it) of
        (Inl e, s') \<Rightarrow> (Inl e, s')
      | (Inr u, s') \<Rightarrow> increase_items s' its)"

text \<open>
  \<^verbatim>\<open>Order.mark_as_paid\<close> and \<^verbatim>\<open>Order.cancel\<close>. \<open>self\<close> is the Python object, with the
  column values it had when it was loaded; \<open>oid\<close> is its primary key. The guards read
  \<^verbatim>\<open>self.status\<close>, which is not refreshed from the table; \<^verbatim>\<open>save\<close> writes the status
  column of the row, and \<^verbatim>\<open>self.items.all()\<close> reads the table when the method runs.
\<close>

definition mark_as_paid :: "state \<Rightarrow> nat \<Rightarrow> order \<Rightarrow> (error + unit) \<times> state" where
  "mark_as_paid s oid self =
     (if status self \<noteq> Pending then (Inl (ValueError ''Cannot mark order as paid''), s)
      else
        (case save_status s oid Paid of
           (Inl e, s1) \<Rightarrow> (Inl e, s1)
         | (Inr u, s1) \<Rightarrow> reduce_items s1 (order_items s1 oid)))"

definition cancel :: "state \<Rightarrow> nat \<Rightarrow> order \<Rightarrow> (error + unit) \<times> state" where
  "cancel s oid self =
     (if status self = Shipped \<or> status self = Delivered
      then (Inl (ValueError ''Cannot cancel order''), s)
      else
        (case (if status self = Paid then increase_items s (order_items s oid)
               else (Inr (), s)) of
           (Inl e, s1) \<Rightarrow> (Inl e, s1)
         | (Inr u, s1) \<Rightarrow> save_status s1 oid Cancelled))"

definition can_be_modified :: "order \<Rightarrow> bool" where
  "can_be_modified self = (status self = Pending)"

definition calculate_subtotal :: "int \<Rightarrow> int \<Rightarrow> int" where
  "calculate_subtotal qty pr = qty * pr"

text \<open>
  \<^verbatim>\<open>OrderItem.objects.create(order=, product=, quantity=, price=)\<close>, which runs
  \<^verbatim>\<open>OrderItem.save\<close>. The price argument is optional; \<^verbatim>\<open>not self.price\<close> holds for a
  missing price and for a zero one. The insert is refused by the foreign keys and by
  \<^verbatim>\<open>unique_together = [['order', 'product']]\<close>. \<^verbatim>\<open>if self.order_id\<close> is the test
  \<open>oid \<noteq> 0\<close>.
\<close>

definition order_item_create ::
  "state \<Rightarrow> nat \<Rightarrow> nat \<Rightarrow> int \<Rightarrow> int option \<Rightarrow> (error + nat) \<times> state" where
  "order_item_create s oid pid qty pr =
     (case products s pid of
        None \<Rightarrow> (Inl (IntegrityError ''order_items.product_id''), s)
      | Some p \<Rightarrow>
          let pr' = (case pr of None \<Rightarrow> price p | Some v \<Rightarrow> if v = 0 then price p else v);
              sub = calculate_subtotal qty pr'
          in
            if orders s oid = None then (Inl (IntegrityError ''order_items.order_id''), s)
            else if list_ex (\<lambda>it. order_id it = oid \<and> product_id it = pid) (items s)
            then (Inl (IntegrityError ''order_items.order_id, order_items.product_id''), s)
            else
              let iid = Suc (item_seq s);
                  row = \<lparr>item_id = iid, order_id = oid, product_id = pid, quantity = qty,
                         item_price = pr', subtotal = sub\<rparr>;
                  s1 = s\<lparr>items := items s @ [row], item_seq := iid\<rparr>
              in
                if oid \<noteq> 0 then
                  (case recalculate_and_save s1 oid of
                     (Inl e, s2) \<Rightarrow> (Inl e, s2)
                   | (Inr u, s2) \<Rightarrow> (Inr iid, s2))
                else (Inr iid, s1))"


section \<open>OrderService\<close>

text \<open>
  The body of the loop of \<^verbatim>\<open>create_order\<close>. An item of the request is the pair
  (\<^verbatim>\<open>product_id\<close>, \<^verbatim>\<open>quantity\<close>).
\<close>

fun add_items :: "state \<Rightarrow> nat \<Rightarrow> (nat \<times> int) list \<Rightarrow> (error + unit) \<times> state" where
  "add_items s oid [] = (Inr (), s)"
| "add_items s oid ((pid, qty) # rest) =
     (case products s pid of
        None \<Rightarrow> (Inl (ValidationError ''Product not found''), s)
      | Some p \<Rightarrow>
          if \<not> is_available p then (Inl (ValidationError ''Product is not available''), s)
          else if stock p < qty then (Inl (ValidationError ''Insufficient stock''), s)
          else
            (case order_item_create s oid pid qty (Some (price p)) of
               (Inl e, s1) \<Rightarrow> (Inl e, s1)
             | (Inr iid, s1) \<Rightarrow> add_items (log Debug ''Added item'' s1) oid rest))"

definition create_order_body ::
  "nat \<Rightarrow> (nat \<times> int) list \<Rightarrow> string \<Rightarrow> state \<Rightarrow> (error + nat) \<times> state" where
  "create_order_body usr its nts s =
     (if its = [] then (Inl (ValidationError ''Order must contain at least one item''), s)
      else
        let oid = Suc (order_seq s) in
          if orders s oid \<noteq> None then (Inl (IntegrityError ''orders.id''), s)
          else
            let s1 = s\<lparr>orders := (orders s)(oid \<mapsto>
                         \<lparr>user = usr, total_amount = 0, status = Pending, order_notes = nts\<rparr>),
                       order_seq := oid\<rparr>;
                s2 = log Info ''Creating order'' s1
            in
              (case add_items s2 oid its of
                 (Inl e, s3) \<Rightarrow> (Inl e, s3)
               | (Inr u, s3) \<Rightarrow> (Inr oid, log Info ''Order created successfully'' s3)))"

definition create_order ::
  "state \<Rightarrow> nat \<Rightarrow> (nat \<times> int) list \<Rightarrow> string \<Rightarrow> (error + nat) \<times> state" where
  "create_order s usr its nts = atomic (create_order_body usr its nts) s"

definition get_order_details :: "state \<Rightarrow> nat \<Rightarrow> nat option \<Rightarrow> error + order" where
  "get_order_details s oid usr =
     (case orders s oid of
        None \<Rightarrow> Inl (DoesNotExist ''Order'')
      | Some row \<Rightarrow>
          if usr \<noteq> None \<and> Some (user row) \<noteq> usr
          then Inl (ValidationError ''Order does not belong to this user'')
          else Inr row)"

definition cancel_order_body :: "nat \<Rightarrow> nat option \<Rightarrow> state \<Rightarrow> (error + nat) \<times> state" where
  "cancel_order_body oid usr s =
     (case get_order_details s oid usr of
        Inl e \<Rightarrow> (Inl e, s)
      | Inr row \<Rightarrow>
          (case cancel s oid row of
             (Inr u, s1) \<Rightarrow> (Inr oid, log Info ''Order cancelled successfully'' s1)
           | (Inl (ValueError m), s1) \<Rightarrow>
               (Inl (ValidationError m), log Error ''Failed to cancel order'' s1)
           | (Inl e, s1) \<Rightarrow> (Inl e, s1)))"

definition cancel_order :: "state \<Rightarrow> nat \<Rightarrow> nat option \<Rightarrow> (error + nat) \<times> state" where
  "cancel_order s oid usr = atomic (cancel_order_body oid usr) s"

section \<open>OrderValidationService\<close>

text \<open>
  The items reach the service through \<^verbatim>\<open>OrderItemCreateSerializer\<close>, so both keys are
  present and integers; the messages of \<^verbatim>\<open>validate_order_items\<close> are kept without the
  item number.
\<close>

fun validate_item :: "state \<Rightarrow> nat \<times> int \<Rightarrow> string list" where
  "validate_item s (pid, qty) =
     (if qty \<le> 0 then [''quantity must be positive''] else []) @
     (case products s pid of
        None \<Rightarrow> [''Product not found'']
      | Some p \<Rightarrow>
          (if \<not> is_available p then [''Product is not available''] else []) @
          (if stock p < qty then [''Insufficient stock''] else []))"

definition validate_order_items :: "state \<Rightarrow> (nat \<times> int) list \<Rightarrow> string list" where
  "validate_order_items s its =
     (if its = [] then [''Order must contain at least one item'']
      else concat (map (validate_item s) its))"

fun items_still_available :: "state \<Rightarrow> order_item list \<Rightarrow> error + bool \<times> string" where
  "items_still_available s [] = Inr (True, ''Order can proceed to payment'')"
| "items_still_available s (it # its) =
     (case products s (product_id it) of
        None \<Rightarrow> Inl (DoesNotExist ''Product'')
      | Some p \<Rightarrow>
          if \<not> is_available p then Inr (False, ''Product is no longer available'')
          else if stock p < quantity it then Inr (False, ''Insufficient stock'')
          else items_still_available s its)"

definition can_proceed_to_payment :: "state \<Rightarrow> nat \<Rightarrow> error + bool \<times> string" where
  "can_proceed_to_payment s oid =
     (case orders s oid of
        None \<Rightarrow> Inl (DoesNotExist ''Order'')
      | Some row \<Rightarrow>
          if status row \<noteq> Pending then Inr (False, ''Order status must be pending'')
          else if total_amount row \<le> 0 then Inr (False, ''Order total must be greater than zero'')
          else if order_items s oid = [] then Inr (False, ''Order has no items'')
          else items_still_available s (order_items s oid))"

section \<open>Payment providers\<close>

text \<open>
  The provider is outside the program: what it answers is an argument of the operation
  that calls it. A strategy returns a dictionary with \<^verbatim>\<open>success\<close> true or false, or
  raises an exception it does not catch itself.
\<close>

datatype create_result =
  Created string string
  | Create_failed string
  | Create_raised string

text \<open>\<^verbatim>\<open>str.lower()\<close>, on the ASCII letters.\<close>

definition lower_char :: "char \<Rightarrow> char" where
  "lower_char c =
     (case map_of (zip ''ABCDEFGHIJKLMNOPQRSTUVWXYZ'' ''abcdefghijklmnopqrstuvwxyz'') c of
        None \<Rightarrow> c
      | Some d \<Rightarrow> d)"

definition lower :: "string \<Rightarrow> string" where
  "lower = map lower_char"

definition get_payment_strategy :: "string \<Rightarrow> error + string" where
  "get_payment_strategy prov =
     (if lower prov = ''stripe'' \<or> lower prov = ''bkash'' then Inr (lower prov)
      else Inl (ValueError ''Unsupported payment provider''))"

section \<open>Payment\<close>

text \<open>
  \<^verbatim>\<open>Payment.objects.get(transaction_id=...)\<close>: the primary keys of the matching rows,
  searched among the keys handed out so far.
\<close>

definition payments_with :: "state \<Rightarrow> string \<Rightarrow> nat list" where
  "payments_with s txn =
     filter (\<lambda>i. case payments s i of None \<Rightarrow> False | Some p \<Rightarrow> transaction_id p = txn)
       [Suc 0 ..< Suc (payment_seq s)]"

definition get_payment :: "state \<Rightarrow> string \<Rightarrow> error + nat" where
  "get_payment s txn =
     (case payments_with s txn of
        [] \<Rightarrow> Inl (DoesNotExist ''Payment'')
      | [i] \<Rightarrow> Inr i
      | _ \<Rightarrow> Inl (MultipleObjectsReturned ''Payment''))"

text \<open>
  \<^verbatim>\<open>Payment.objects.create(...)\<close> with \<^verbatim>\<open>status='pending'\<close>; \<^verbatim>\<open>transaction_id\<close> is
  \<^verbatim>\<open>unique=True\<close>.
\<close>

definition payment_create ::
  "state \<Rightarrow> nat \<Rightarrow> string \<Rightarrow> string \<Rightarrow> int \<Rightarrow> string \<Rightarrow> string \<Rightarrow> (error + nat) \<times> state" where
  "payment_create s oid prov txn amt cur raw =
     (let pid = Suc (payment_seq s) in
        if orders s oid = None then (Inl (IntegrityError ''payments.order_id''), s)
        else if payments_with s txn \<noteq> [] then (Inl (IntegrityError ''payments.transaction_id''), s)
        else if payments s pid \<noteq> None then (Inl (IntegrityError ''payments.id''), s)
        else
          (Inr pid,
           s\<lparr>payments := (payments s)(pid \<mapsto>
                \<lparr>pay_order = oid, provider = prov, transaction_id = txn, amount = amt,
                 currency = cur, pay_status = Pay_pending, raw_response = raw,
                 error_message = [], refund_metadata = None, completed_at = None\<rparr>),
             payment_seq := pid\<rparr>))"

text \<open>
  \<^verbatim>\<open>if transaction_data:\<close> is false for \<^verbatim>\<open>None\<close> and for an empty payload.
\<close>

definition new_raw_response :: "payment \<Rightarrow> string option \<Rightarrow> string" where
  "new_raw_response self transaction_data =
     (case transaction_data of
        None \<Rightarrow> raw_response self
      | Some d \<Rightarrow> if d = [] then raw_response self else d)"

text \<open>
  \<^verbatim>\<open>Payment.mark_as_success\<close>, at time \<open>now\<close>. \<open>self\<close> is the payment object as it was
  loaded and \<open>pid\<close> its primary key; \<^verbatim>\<open>save(update_fields=...)\<close> writes the named columns
  of the row. \<open>cached\<close> is the order object that \<^verbatim>\<open>self.order\<close> already holds when a view
  has read it before; otherwise the attribute is loaded from the table when it is first
  read, after the payment is saved. Only a \<^verbatim>\<open>ValueError\<close> of \<^verbatim>\<open>mark_as_paid\<close> is caught.
\<close>

definition mark_as_success ::
  "state \<Rightarrow> nat \<Rightarrow> payment \<Rightarrow> order option \<Rightarrow> nat \<Rightarrow> string option
     \<Rightarrow> (error + unit) \<times> state" where
  "mark_as_success s pid self cached now transaction_data =
     (case payments s pid of
        None \<Rightarrow> (Inl (DatabaseError ''Save with update_fields did not affect any rows''), s)
      | Some row \<Rightarrow>
          let s1 = s\<lparr>payments := (payments s)(pid \<mapsto>
                       row\<lparr>pay_status := Success, completed_at := Some now,
                           raw_response := new_raw_response self transaction_data\<rparr>)\<rparr>
          in
            (case (case cached of None \<Rightarrow> orders s1 (pay_order self) | Some ord \<Rightarrow> Some ord) of
               None \<Rightarrow> (Inl (DoesNotExist ''Order''), s1)
             | Some ord \<Rightarrow>
                 (case mark_as_paid s1 (pay_order self) ord of
                    (Inr u, s2) \<Rightarrow> (Inr (), s2)
                  | (Inl (ValueError m), s2) \<Rightarrow>
                      (Inr (), log Warning ''Payment succeeded but order update failed'' s2)
                  | (Inl e, s2) \<Rightarrow> (Inl e, s2))))"

definition mark_as_failed ::
  "state \<Rightarrow> nat \<Rightarrow> payment \<Rightarrow> nat \<Rightarrow> string \<Rightarrow> string option \<Rightarrow> (error + unit) \<times> state" where
  "mark_as_failed s pid self now msg transaction_data =
     (case payments s pid of
        None \<Rightarrow> (Inl (DatabaseError ''Save with update_fields did not affect any rows''), s)
      | Some row \<Rightarrow>
          (Inr (),
           s\<lparr>payments := (payments s)(pid \<mapsto>
                row\<lparr>pay_status := Failed, error_message := msg, completed_at := Some now,
                    raw_response := new_raw_response self transaction_data\<rparr>)\<rparr>))"

definition mark_as_processing :: "state \<Rightarrow> nat \<Rightarrow> (error + unit) \<times> state" where
  "mark_as_processing s pid =
     (case payments s pid of
        None \<Rightarrow> (Inl (DatabaseError ''Save with update_fields did not affect any rows''), s)
      | Some row \<Rightarrow>
          (Inr (), s\<lparr>payments := (payments s)(pid \<mapsto> row\<lparr>pay_status := Pay_processing\<rparr>)\<rparr>))"

definition can_be_refunded :: "payment \<Rightarrow> bool" where
  "can_be_refunded self = (pay_status self = Success)"

definition is_successful :: "payment \<Rightarrow> bool" where
  "is_successful self = (pay_status self = Success)"

definition is_pending :: "payment \<Rightarrow> bool" where
  "is_pending self = (pay_status self = Pay_pending)"

section \<open>CheckoutService\<close>

text \<open>
  The \<^verbatim>\<open>try\<close> block of \<^verbatim>\<open>create_order_and_initiate_payment\<close>. \<open>gateway\<close> is the answer
  of the chosen strategy's \<^verbatim>\<open>create_payment\<close> for an order, an amount and a currency.
\<close>

definition initiate_payment ::
  "(string \<Rightarrow> nat \<Rightarrow> int \<Rightarrow> string \<Rightarrow> create_result) \<Rightarrow> nat \<Rightarrow> string \<Rightarrow> state
     \<Rightarrow> (error + nat \<times> nat \<times> string) \<times> state" where
  "initiate_payment gateway oid prov s =
     (case get_payment_strategy prov of
        Inl e \<Rightarrow> (Inl e, s)
      | Inr strategy \<Rightarrow>
          let cur = (if lower prov = ''bkash'' then ''BDT'' else ''USD'') in
            (case orders s oid of
               None \<Rightarrow> (Inl (DoesNotExist ''Order''), s)
             | Some row \<Rightarrow>
                 (case gateway strategy oid (total_amount row) cur of
                    Create_raised m \<Rightarrow> (Inl (ProviderException m), s)
                  | Create_failed m \<Rightarrow> (Inl (ValidationError ''Payment initiation failed''), s)
                  | Created txn raw \<Rightarrow>
                      (case payment_create s oid (lower prov) txn (total_amount row) cur raw of
                         (Inl e, s1) \<Rightarrow> (Inl e, s1)
                       | (Inr payid, s1) \<Rightarrow>
                           (Inr (oid, payid, txn), log Info ''Payment initiated'' s1)))))"

text \<open>
  The function body under its \<^verbatim>\<open>@transaction.atomic\<close>. \<^verbatim>\<open>except Exception\<close> turns
  whatever the \<^verbatim>\<open>try\<close> block raised into a \<^verbatim>\<open>ValidationError\<close>, which leaves the
  function.
\<close>

definition checkout_body ::
  "(string \<Rightarrow> nat \<Rightarrow> int \<Rightarrow> string \<Rightarrow> create_result) \<Rightarrow> nat \<Rightarrow> (nat \<times> int) list \<Rightarrow> string
     \<Rightarrow> string \<Rightarrow> state \<Rightarrow> (error + nat \<times> nat \<times> string) \<times> state" where
  "checkout_body gateway usr its prov nts s =
     (let validation_errors = validate_order_items s its in
        if validation_errors \<noteq> [] then (Inl (ValidationErrorList validation_errors), s)
        else
          (case create_order s usr its nts of
             (Inl e, s1) \<Rightarrow> (Inl e, s1)
           | (Inr oid, s1) \<Rightarrow>
               (case can_proceed_to_payment s1 oid of
                  Inl e \<Rightarrow> (Inl e, s1)
                | Inr (can_proceed, message) \<Rightarrow>
                    if \<not> can_proceed then (Inl (ValidationError message), s1)
                    else
                      (case initiate_payment gateway oid prov s1 of
                         (Inr r, s2) \<Rightarrow> (Inr r, s2)
                       | (Inl e, s2) \<Rightarrow>
                           (Inl (ValidationError ''Payment initiation failed''),
                            log Error ''Error initiating payment'' s2)))))"

definition create_order_and_initiate_payment ::
  "state \<Rightarrow> nat \<Rightarrow> (nat \<times> int) list \<Rightarrow> string \<Rightarrow> string
     \<Rightarrow> (string \<Rightarrow> nat \<Rightarrow> int \<Rightarrow> string \<Rightarrow> create_result)
     \<Rightarrow> (error + nat \<times> nat \<times> string) \<times> state" where
  "create_order_and_initiate_payment s usr its prov nts gateway =
     atomic (checkout_body gateway usr its prov nts) s"

text \<open>
  \<^verbatim>\<open>checkout_view\<close>: the HTTP status of the response. An exception the view does not
  catch is Django's 500. The handler reads \<^verbatim>\<open>e.message\<close>, which a
  \<^verbatim>\<open>ValidationError\<close> built from a list does not have: the \<^verbatim>\<open>AttributeError\<close> leaves the
  view.
\<close>

definition checkout_view ::
  "state \<Rightarrow> nat \<Rightarrow> (nat \<times> int) list \<Rightarrow> string \<Rightarrow> string
     \<Rightarrow> (string \<Rightarrow> nat \<Rightarrow> int \<Rightarrow> string \<Rightarrow> create_result) \<Rightarrow> nat \<times> state" where
  "checkout_view s usr its prov nts gateway =
     (case create_order_and_initiate_payment s usr its prov nts gateway of
        (Inr r, s1) \<Rightarrow> (201, s1)
      | (Inl (ValidationError m), s1) \<Rightarrow> (400, s1)
      | (Inl (ValidationErrorList ms), s1) \<Rightarrow> (500, s1)
      | (Inl e, s1) \<Rightarrow> (500, s1))"

section \<open>Payment views\<close>

text \<open>
  What \<^verbatim>\<open>confirm_payment\<close> and \<^verbatim>\<open>get_payment_status\<close> of a strategy answer: the
  provider's status with the raw response, or an error with the dictionary itself as
  text, or an exception.
\<close>

datatype provider_answer =
  Answer_ok string "string option"
  | Answer_failed "string option" string
  | Answer_raised string

datatype refund_answer =
  Refund_ok string
  | Refund_failed "string option"
  | Refund_raised string

text \<open>
  The \<^verbatim>\<open>last_payment_error\<close> of a Stripe payment intent: the key is absent, or its value
  is \<^verbatim>\<open>null\<close>, or it is an object that may have a \<^verbatim>\<open>message\<close>.
\<close>

datatype last_payment_error =
  Error_absent
  | Error_null
  | Error_object "string option"

text \<open>
  What \<^verbatim>\<open>handle_webhook\<close> answers: an error, or the event type with, from
  \<^verbatim>\<open>event.data.object\<close>, its \<^verbatim>\<open>id\<close>, its \<^verbatim>\<open>last_payment_error\<close> and the object as
  text.
\<close>

datatype webhook_answer =
  Webhook_invalid string
  | Webhook_event string string last_payment_error string

text \<open>
  The first lines of \<^verbatim>\<open>confirm_payment_view\<close> and \<^verbatim>\<open>payment_status_view\<close>: the payment
  is loaded by its transaction id, and the ownership test reads \<^verbatim>\<open>payment.order\<close>, which
  loads the order and keeps it on the payment object. The result is the HTTP status of an
  early response, or the primary key with the two loaded objects.
\<close>

definition load_payment ::
  "state \<Rightarrow> nat \<Rightarrow> bool \<Rightarrow> string \<Rightarrow> nat + nat \<times> payment \<times> order" where
  "load_payment s request_user has_admin_privileges txn =
     (case get_payment s txn of
        Inl (DoesNotExist m) \<Rightarrow> Inl 404
      | Inl e \<Rightarrow> Inl 500
      | Inr pid \<Rightarrow>
          (case payments s pid of
             None \<Rightarrow> Inl 500
           | Some payment \<Rightarrow>
               (case orders s (pay_order payment) of
                  None \<Rightarrow> Inl 500
                | Some ord \<Rightarrow>
                    if user ord \<noteq> request_user \<and> \<not> has_admin_privileges then Inl 403
                    else Inr (pid, payment, ord))))"

text \<open>
  \<^verbatim>\<open>confirm_payment_view\<close> in two parts: up to the call of the provider, and from the
  provider's answer on. The second part works on the objects the first part loaded and on
  the database as it is when the answer arrives. The view on a database that nothing else
  touches in between is the two parts on the same state.
\<close>

definition confirm_payment_begin ::
  "state \<Rightarrow> nat \<Rightarrow> bool \<Rightarrow> string \<Rightarrow> nat + nat \<times> payment \<times> order" where
  "confirm_payment_begin s request_user has_admin_privileges txn =
     (case load_payment s request_user has_admin_privileges txn of
        Inl code \<Rightarrow> Inl code
      | Inr (pid, payment, ord) \<Rightarrow>
          if \<not> is_pending payment then Inl 400
          else
            (case get_payment_strategy (provider payment) of
               Inl e \<Rightarrow> Inl 500
             | Inr strategy \<Rightarrow> Inr (pid, payment, ord)))"

definition confirm_payment_finish ::
  "state \<Rightarrow> nat \<times> payment \<times> order \<Rightarrow> provider_answer \<Rightarrow> nat \<Rightarrow> nat \<times> state" where
  "confirm_payment_finish s loaded answer now =
     (case loaded of (pid, payment, ord) \<Rightarrow>
        (case answer of
           Answer_raised m \<Rightarrow> (500, s)
         | Answer_ok st raw \<Rightarrow>
             (case mark_as_success s pid payment (Some ord) now raw of
                (Inl e, s1) \<Rightarrow> (500, s1)
              | (Inr u, s1) \<Rightarrow> (200, log Info ''Payment confirmed successfully'' s1))
         | Answer_failed err result \<Rightarrow>
             (case mark_as_failed s pid payment now
                     (case err of None \<Rightarrow> ''Payment confirmation failed'' | Some m \<Rightarrow> m)
                     (Some result) of
                (Inl e, s1) \<Rightarrow> (500, s1)
              | (Inr u, s1) \<Rightarrow> (400, log Error ''Payment confirmation failed'' s1))))"

definition confirm_payment_view ::
  "state \<Rightarrow> nat \<Rightarrow> bool \<Rightarrow> string \<Rightarrow> provider_answer \<Rightarrow> nat \<Rightarrow> nat \<times> state" where
  "confirm_payment_view s request_user has_admin_privileges txn answer now =
     (case confirm_payment_begin s request_user has_admin_privileges txn of
        Inl code \<Rightarrow> (code, s)
      | Inr loaded \<Rightarrow> confirm_payment_finish s loaded answer now)"

text \<open>\<^verbatim>\<open>payment_status_view\<close>, in the same two parts.\<close>

definition payment_status_begin ::
  "state \<Rightarrow> nat \<Rightarrow> bool \<Rightarrow> string \<Rightarrow> nat + nat \<times> payment \<times> order" where
  "payment_status_begin s request_user has_admin_privileges txn =
     (case load_payment s request_user has_admin_privileges txn of
        Inl code \<Rightarrow> Inl code
      | Inr (pid, payment, ord) \<Rightarrow>
          (case get_payment_strategy (provider payment) of
             Inl e \<Rightarrow> Inl 500
           | Inr strategy \<Rightarrow> Inr (pid, payment, ord)))"

definition payment_status_finish ::
  "state \<Rightarrow> nat \<times> payment \<times> order \<Rightarrow> provider_answer \<Rightarrow> nat \<Rightarrow> nat \<times> state" where
  "payment_status_finish s loaded answer now =
     (case loaded of (pid, payment, ord) \<Rightarrow>
        (case answer of
           Answer_raised m \<Rightarrow> (500, s)
         | Answer_failed err result \<Rightarrow> (400, s)
         | Answer_ok st raw \<Rightarrow>
             let provider_status = lower st in
               if provider_status \<in> set [''succeeded'', ''completed'', ''success''] then
                 (if pay_status payment \<noteq> Success then
                    (case mark_as_success s pid payment (Some ord) now raw of
                       (Inl e, s1) \<Rightarrow> (500, s1)
                     | (Inr u, s1) \<Rightarrow> (200, s1))
                  else (200, s))
               else if provider_status \<in> set [''failed'', ''cancelled''] then
                 (if pay_status payment \<notin> set [Failed, Pay_cancelled] then
                    (case mark_as_failed s pid payment now [] raw of
                       (Inl e, s1) \<Rightarrow> (500, s1)
                     | (Inr u, s1) \<Rightarrow> (200, s1))
                  else (200, s))
               else (200, s)))"

definition payment_status_view ::
  "state \<Rightarrow> nat \<Rightarrow> bool \<Rightarrow> string \<Rightarrow> provider_answer \<Rightarrow> nat \<Rightarrow> nat \<times> state" where
  "payment_status_view s request_user has_admin_privileges txn answer now =
     (case payment_status_begin s request_user has_admin_privileges txn of
        Inl code \<Rightarrow> (code, s)
      | Inr loaded \<Rightarrow> payment_status_finish s loaded answer now)"

definition refund_payment_view ::
  "state \<Rightarrow> bool \<Rightarrow> nat \<Rightarrow> refund_answer \<Rightarrow> nat \<times> state" where
  "refund_payment_view s has_admin_privileges payment_id answer =
     (if \<not> has_admin_privileges then (403, s)
      else
        (case payments s payment_id of
           None \<Rightarrow> (404, s)
         | Some payment \<Rightarrow>
             if \<not> can_be_refunded payment then (400, s)
             else
               (case get_payment_strategy (provider payment) of
                  Inl e \<Rightarrow> (500, s)
                | Inr strategy \<Rightarrow>
                    (case answer of
                       Refund_raised m \<Rightarrow> (500, s)
                     | Refund_failed err \<Rightarrow> (400, log Error ''Payment refund failed'' s)
                     | Refund_ok refund_id \<Rightarrow>
                         (200,
                          log Info ''Payment refunded successfully''
                            (s\<lparr>payments := (payments s)(payment_id \<mapsto>
                                 payment\<lparr>pay_status := Refunded,
                                         refund_metadata := Some refund_id\<rparr>)\<rparr>))))))"

text \<open>
  \<^verbatim>\<open>stripe_webhook_view\<close>. The payment is loaded when the event is handled, and its order
  when \<^verbatim>\<open>mark_as_success\<close> reads it. For a failed payment the message is
  \<^verbatim>\<open>data.get('last_payment_error', {}).get('message', 'Payment failed')\<close>: on a
  \<^verbatim>\<open>null\<close> value the second \<^verbatim>\<open>get\<close> raises \<^verbatim>\<open>AttributeError\<close>, which the view does
  not catch.
\<close>

definition stripe_webhook_view :: "state \<Rightarrow> webhook_answer \<Rightarrow> nat \<Rightarrow> nat \<times> state" where
  "stripe_webhook_view s answer now =
     (case answer of
        Webhook_invalid err \<Rightarrow> (400, log Error ''Stripe webhook error'' s)
      | Webhook_event event_type txn last_error data \<Rightarrow>
          let s0 = log Info ''Stripe webhook received'' s in
            if event_type = ''payment_intent.succeeded'' then
              (case get_payment s0 txn of
                 Inl (DoesNotExist m) \<Rightarrow> (200, log Warning ''Payment not found'' s0)
               | Inl e \<Rightarrow> (500, s0)
               | Inr pid \<Rightarrow>
                   (case payments s0 pid of
                      None \<Rightarrow> (500, s0)
                    | Some payment \<Rightarrow>
                        (case mark_as_success s0 pid payment None now (Some data) of
                           (Inl e, s1) \<Rightarrow> (500, s1)
                         | (Inr u, s1) \<Rightarrow>
                             (200, log Info ''Payment marked as success via webhook'' s1))))
            else if event_type = ''payment_intent.payment_failed'' then
              (case get_payment s0 txn of
                 Inl (DoesNotExist m) \<Rightarrow> (200, log Warning ''Payment not found'' s0)
               | Inl e \<Rightarrow> (500, s0)
               | Inr pid \<Rightarrow>
                   (case payments s0 pid of
                      None \<Rightarrow> (500, s0)
                    | Some payment \<Rightarrow>
                        (case last_error of
                           Error_null \<Rightarrow> (500, s0)
                         | _ \<Rightarrow>
                             (case mark_as_failed s0 pid payment now
                                     (case last_error of
                                        Error_object (Some m) \<Rightarrow> m
                                      | _ \<Rightarrow> ''Payment failed'')
                                     (Some data) of
                                (Inl e, s1) \<Rightarrow> (500, s1)
                              | (Inr u, s1) \<Rightarrow>
                                  (200, log Info ''Payment marked as failed via webhook'' s1)))))
            else (200, s0))"

definition bkash_webhook_view :: "state \<Rightarrow> nat \<times> state" where
  "bkash_webhook_view s = (200, log Info ''bKash webhook received (not implemented)'' s)"

section \<open>Vocabulary of the properties\<close>

text \<open>
  The total quantity that a list of order items holds of one product, and the stock of a
  product in a state.
\<close>

definition qty_for :: "nat \<Rightarrow> order_item list \<Rightarrow> int" where
  "qty_for pid its = sum_list (map quantity (filter (\<lambda>it. product_id it = pid) its))"

definition stock_of :: "state \<Rightarrow> nat \<Rightarrow> int option" where
  "stock_of s pid = map_option stock (products s pid)"

text \<open>
  For the creation of an order: an item of the request that \<^verbatim>\<open>create_order\<close> refuses
  (product missing, not available, or fewer in stock than asked for); the price of a
  product in a state; the row that an accepted item of the request becomes.
\<close>

fun item_invalid :: "state \<Rightarrow> nat \<times> int \<Rightarrow> bool" where
  "item_invalid s (pid, qty) =
     (case products s pid of None \<Rightarrow> True | Some p \<Rightarrow> \<not> is_available p \<or> stock p < qty)"

definition price_at :: "state \<Rightarrow> nat \<Rightarrow> int" where
  "price_at s pid = (case products s pid of None \<Rightarrow> 0 | Some p \<Rightarrow> price p)"

definition new_item :: "state \<Rightarrow> nat \<Rightarrow> nat \<times> int \<Rightarrow> order_item \<Rightarrow> bool" where
  "new_item s oid x it =
     (order_id it = oid \<and> product_id it = fst x \<and> quantity it = snd x
      \<and> item_price it = price_at s (fst x) \<and> subtotal it = snd x * price_at s (fst x))"


text \<open>
  A shop with one product (id 1, unit price 50.00, ten in stock) and user 7, and the same
  shop after that user ordered two of the product (Scenarios A and B of the
  specification).
\<close>

definition shop :: state where
  "shop = \<lparr>products = [1 \<mapsto> \<lparr>price = 5000, stock = 10, pstatus = Active\<rparr>],
           orders = Map.empty, items = [], payments = Map.empty,
           order_seq = 0, item_seq = 0, payment_seq = 0, logs = []\<rparr>"

definition shop_with_order :: "order_status \<Rightarrow> int \<Rightarrow> state" where
  "shop_with_order st in_stock =
     \<lparr>products = [1 \<mapsto> \<lparr>price = 5000, stock = in_stock, pstatus = Active\<rparr>],
      orders = [1 \<mapsto> \<lparr>user = 7, total_amount = 10000, status = st, order_notes = []\<rparr>],
      items = [\<lparr>item_id = 1, order_id = 1, product_id = 1, quantity = 2,
                item_price = 5000, subtotal = 10000\<rparr>],
      payments = Map.empty, order_seq = 1, item_seq = 1, payment_seq = 0, logs = []\<rparr>"

text \<open>
  The shop with that order and one Stripe payment for it, in a given status and with a
  given \<^verbatim>\<open>completed_at\<close>; and a provider that refuses to create a payment.
\<close>

definition shop_with_payment :: "order_status \<Rightarrow> payment_status \<Rightarrow> nat option \<Rightarrow> state" where
  "shop_with_payment ost pst done =
     (shop_with_order ost 8)
       \<lparr>payments := [1 \<mapsto>
          \<lparr>pay_order = 1, provider = ''stripe'', transaction_id = ''pi_1'', amount = 10000,
           currency = ''USD'', pay_status = pst, raw_response = ''created'',
           error_message = [], refund_metadata = None, completed_at = done\<rparr>],
        payment_seq := 1\<rparr>"

definition declining_gateway :: "string \<Rightarrow> nat \<Rightarrow> int \<Rightarrow> string \<Rightarrow> create_result" where
  "declining_gateway strategy oid amt cur = Create_failed ''Your card was declined''"

text \<open>
  The order row of that shop, and a status poll overtaken by a webhook: the poll loads the
  payment and its order, the webhook is handled while the poll waits for the provider, and
  the poll then goes on with the objects it loaded.
\<close>

definition order_row :: "order_status \<Rightarrow> order" where
  "order_row st = \<lparr>user = 7, total_amount = 10000, status = st, order_notes = []\<rparr>"

definition poll_overtaken_by_webhook ::
  "state \<Rightarrow> nat \<Rightarrow> bool \<Rightarrow> string \<Rightarrow> webhook_answer \<Rightarrow> nat \<Rightarrow> provider_answer \<Rightarrow> nat
     \<Rightarrow> nat \<times> state" where
  "poll_overtaken_by_webhook s request_user has_admin_privileges txn event t1 answer t2 =
     (let s1 = snd (stripe_webhook_view s event t1) in
        case payment_status_begin s request_user has_admin_privileges txn of
          Inl code \<Rightarrow> (code, s1)
        | Inr loaded \<Rightarrow> payment_status_finish s1 loaded answer t2)"

section \<open>The loops over the items of an order\<close>



lemma product_reduce_stock_frame:
  "product_reduce_stock s pid q = (r, s') \<Longrightarrow>
     orders s' = orders s \<and> items s' = items s \<and> payments s' = payments s \<and> logs s' = logs s
     \<and> order_seq s' = order_seq s \<and> item_seq s' = item_seq s \<and> payment_seq s' = payment_seq s"
  by (auto simp: product_reduce_stock_def split: option.splits sum.splits)

lemma product_increase_stock_frame:
  "product_increase_stock s pid q = (r, s') \<Longrightarrow>
     orders s' = orders s \<and> items s' = items s \<and> payments s' = payments s \<and> logs s' = logs s
     \<and> order_seq s' = order_seq s \<and> item_seq s' = item_seq s \<and> payment_seq s' = payment_seq s"
  by (auto simp: product_increase_stock_def split: option.splits sum.splits)

lemma reduce_items_frame:
  "reduce_items s its = (r, s') \<Longrightarrow>
     orders s' = orders s \<and> items s' = items s \<and> payments s' = payments s \<and> logs s' = logs s
     \<and> order_seq s' = order_seq s \<and> item_seq s' = item_seq s \<and> payment_seq s' = payment_seq s"
proof (induction its arbitrary: s)
  case Nil
  then show ?case by simp
next
  case (Cons it its)
  obtain r1 s1 where step: "product_reduce_stock s (product_id it) (quantity it) = (r1, s1)"
    by (cases "product_reduce_stock s (product_id it) (quantity it)")
  note fr = product_reduce_stock_frame [OF step]
  show ?case
  proof (cases r1)
    case (Inl e)
    with Cons.prems step fr show ?thesis by simp
  next
    case (Inr u)
    with Cons.prems step have "reduce_items s1 its = (r, s')" by simp
    from Cons.IH [OF this] fr show ?thesis by simp
  qed
qed

lemma increase_items_frame:
  "increase_items s its = (r, s') \<Longrightarrow>
     orders s' = orders s \<and> items s' = items s \<and> payments s' = payments s \<and> logs s' = logs s
     \<and> order_seq s' = order_seq s \<and> item_seq s' = item_seq s \<and> payment_seq s' = payment_seq s"
proof (induction its arbitrary: s)
  case Nil
  then show ?case by simp
next
  case (Cons it its)
  obtain r1 s1 where step: "product_increase_stock s (product_id it) (quantity it) = (r1, s1)"
    by (cases "product_increase_stock s (product_id it) (quantity it)")
  note fr = product_increase_stock_frame [OF step]
  show ?case
  proof (cases r1)
    case (Inl e)
    with Cons.prems step fr show ?thesis by simp
  next
    case (Inr u)
    with Cons.prems step have "increase_items s1 its = (r, s')" by simp
    from Cons.IH [OF this] fr show ?thesis by simp
  qed
qed

lemma product_reduce_stock_ok:
  "product_reduce_stock s pid q = (Inr u, s') \<Longrightarrow>
     0 < q \<and> products s pid \<noteq> None \<and>
     (\<forall>k. stock_of s' k = (if k = pid then map_option (\<lambda>n. n - q) (stock_of s k) else stock_of s k))"
  by (auto simp: product_reduce_stock_def reduce_stock_def stock_of_def Let_def
           split: option.splits sum.splits if_splits)

lemma product_increase_stock_ok:
  "product_increase_stock s pid q = (Inr u, s') \<Longrightarrow>
     0 < q \<and> products s pid \<noteq> None \<and>
     (\<forall>k. stock_of s' k = (if k = pid then map_option (\<lambda>n. n + q) (stock_of s k) else stock_of s k))"
  by (auto simp: product_increase_stock_def increase_stock_def stock_of_def Let_def
           split: option.splits sum.splits if_splits)

lemma reduce_items_stock:
  "reduce_items s its = (Inr u, s') \<Longrightarrow>
     stock_of s' k = map_option (\<lambda>n. n - qty_for k its) (stock_of s k)"
proof (induction its arbitrary: s)
  case Nil
  then show ?case by (simp add: qty_for_def option.map_ident)
next
  case (Cons it its)
  obtain r1 s1 where step: "product_reduce_stock s (product_id it) (quantity it) = (r1, s1)"
    by (cases "product_reduce_stock s (product_id it) (quantity it)")
  with Cons.prems obtain u1 where r1: "r1 = Inr u1" and rest: "reduce_items s1 its = (Inr u, s')"
    by (cases r1) auto
  from product_reduce_stock_ok [OF step [unfolded r1]]
  have s1: "stock_of s1 k = (if k = product_id it then map_option (\<lambda>n. n - quantity it) (stock_of s k) else stock_of s k)"
    by simp
  from Cons.IH [OF rest] s1 show ?case
    by (cases "stock_of s k") (auto simp: qty_for_def)
qed

lemma increase_items_stock:
  "increase_items s its = (Inr u, s') \<Longrightarrow>
     stock_of s' k = map_option (\<lambda>n. n + qty_for k its) (stock_of s k)"
proof (induction its arbitrary: s)
  case Nil
  then show ?case by (simp add: qty_for_def option.map_ident)
next
  case (Cons it its)
  obtain r1 s1 where step: "product_increase_stock s (product_id it) (quantity it) = (r1, s1)"
    by (cases "product_increase_stock s (product_id it) (quantity it)")
  with Cons.prems obtain u1 where r1: "r1 = Inr u1" and rest: "increase_items s1 its = (Inr u, s')"
    by (cases r1) auto
  from product_increase_stock_ok [OF step [unfolded r1]]
  have s1: "stock_of s1 k = (if k = product_id it then map_option (\<lambda>n. n + quantity it) (stock_of s k) else stock_of s k)"
    by simp
  from Cons.IH [OF rest] s1 show ?case
    by (cases "stock_of s k") (auto simp: qty_for_def)
qed

lemma stock_of_None: "stock_of s k = None \<longleftrightarrow> products s k = None"
  by (simp add: stock_of_def)

lemma reduce_items_requires:
  "reduce_items s its = (Inr u, s') \<Longrightarrow>
     list_all (\<lambda>it. 0 < quantity it \<and> products s (product_id it) \<noteq> None) its"
proof (induction its arbitrary: s)
  case Nil
  then show ?case by simp
next
  case (Cons it its)
  obtain r1 s1 where step: "product_reduce_stock s (product_id it) (quantity it) = (r1, s1)"
    by (cases "product_reduce_stock s (product_id it) (quantity it)")
  with Cons.prems obtain u1 where r1: "r1 = Inr u1" and rest: "reduce_items s1 its = (Inr u, s')"
    by (cases r1) auto
  note ok = product_reduce_stock_ok [OF step [unfolded r1]]
  have same: "products s1 k = None \<longleftrightarrow> products s k = None" for k
    using ok stock_of_None [of s1 k] stock_of_None [of s k] by (auto split: if_splits)
  from Cons.IH [OF rest] have "list_all (\<lambda>it. 0 < quantity it \<and> products s (product_id it) \<noteq> None) its"
    by (simp add: same)
  with ok show ?case by simp
qed

lemma increase_items_succeeds:
  "list_all (\<lambda>it. 0 < quantity it \<and> products s (product_id it) \<noteq> None) its \<Longrightarrow>
     \<exists>s'. increase_items s its = (Inr (), s')"
proof (induction its arbitrary: s)
  case Nil
  then show ?case by simp
next
  case (Cons it its)
  from Cons.prems obtain p where p: "products s (product_id it) = Some p" and q: "0 < quantity it"
    by auto
  then obtain s1 where step: "product_increase_stock s (product_id it) (quantity it) = (Inr (), s1)"
    by (auto simp: product_increase_stock_def increase_stock_def Let_def)
  note ok = product_increase_stock_ok [OF step]
  have same: "products s1 k = None \<longleftrightarrow> products s k = None" for k
    using ok stock_of_None [of s1 k] stock_of_None [of s k] by (auto split: if_splits)
  from Cons.prems have "list_all (\<lambda>it. 0 < quantity it \<and> products s1 (product_id it) \<noteq> None) its"
    by (simp add: same)
  from Cons.IH [OF this] step show ?case by simp
qed

lemma save_status_ok:
  "orders s oid = Some row \<Longrightarrow>
     save_status s oid st = (Inr (), s\<lparr>orders := (orders s)(oid \<mapsto> row\<lparr>status := st\<rparr>)\<rparr>)"
  by (simp add: save_status_def)

lemma order_items_orders_upd [simp]: "order_items (s\<lparr>orders := x\<rparr>) oid = order_items s oid"
  by (simp add: order_items_def)

lemma stock_of_orders_upd [simp]: "stock_of (s\<lparr>orders := x\<rparr>) k = stock_of s k"
  by (simp add: stock_of_def)

lemma mark_as_paid_refused:
  "status self \<noteq> Pending \<Longrightarrow>
     mark_as_paid s oid self = (Inl (ValueError ''Cannot mark order as paid''), s)"
  by (simp add: mark_as_paid_def)

lemma mark_as_paid_pending:
  "orders s oid = Some row \<Longrightarrow> status self = Pending \<Longrightarrow>
     mark_as_paid s oid self =
       reduce_items (s\<lparr>orders := (orders s)(oid \<mapsto> row\<lparr>status := Paid\<rparr>)\<rparr>) (order_items s oid)"
  by (simp add: mark_as_paid_def save_status_ok)

lemma mark_as_paid_status:
  assumes "orders s oid = Some row" "status self = Pending" "mark_as_paid s oid self = (r, s')"
  shows "orders s' oid = Some (row\<lparr>status := Paid\<rparr>)"
proof -
  from assms have "reduce_items (s\<lparr>orders := (orders s)(oid \<mapsto> row\<lparr>status := Paid\<rparr>)\<rparr>) (order_items s oid) = (r, s')"
    by (simp add: mark_as_paid_pending)
  from reduce_items_frame [OF this] show ?thesis by simp
qed

lemma mark_as_paid_Inr_pending:
  "mark_as_paid s oid self = (Inr u, s') \<Longrightarrow>
     status self = Pending \<and> (\<exists>row. orders s oid = Some row)"
  by (auto simp: mark_as_paid_def save_status_def split: option.splits if_splits)

lemma product_reduce_stock_payments:
  "product_reduce_stock (s\<lparr>payments := P\<rparr>) pid q =
     (fst (product_reduce_stock s pid q), (snd (product_reduce_stock s pid q))\<lparr>payments := P\<rparr>)"
  by (simp add: product_reduce_stock_def split: option.splits sum.splits)

lemma reduce_items_payments:
  "reduce_items (s\<lparr>payments := P\<rparr>) its =
     (fst (reduce_items s its), (snd (reduce_items s its))\<lparr>payments := P\<rparr>)"
proof (induction its arbitrary: s)
  case Nil
  then show ?case by simp
next
  case (Cons it its)
  obtain r1 s1 where step: "product_reduce_stock s (product_id it) (quantity it) = (r1, s1)"
    by (cases "product_reduce_stock s (product_id it) (quantity it)")
  show ?case
    by (cases r1) (simp_all add: product_reduce_stock_payments step Cons.IH)
qed

lemma mark_as_paid_payments:
  "mark_as_paid (s\<lparr>payments := P\<rparr>) oid self =
     (fst (mark_as_paid s oid self), (snd (mark_as_paid s oid self))\<lparr>payments := P\<rparr>)"
proof (cases "orders s oid")
  case None
  then show ?thesis by (simp add: mark_as_paid_def save_status_def)
next
  case (Some row)
  let ?X = "(orders s)(oid \<mapsto> row\<lparr>status := Paid\<rparr>)"
  let ?its = "filter (\<lambda>it. order_id it = oid) (items s)"
  have "reduce_items ((s\<lparr>orders := ?X\<rparr>)\<lparr>payments := P\<rparr>) ?its =
          (fst (reduce_items (s\<lparr>orders := ?X\<rparr>) ?its),
           (snd (reduce_items (s\<lparr>orders := ?X\<rparr>) ?its))\<lparr>payments := P\<rparr>)"
    by (rule reduce_items_payments)
  moreover have "s\<lparr>payments := P, orders := ?X\<rparr> = (s\<lparr>orders := ?X\<rparr>)\<lparr>payments := P\<rparr>"
    by simp
  ultimately have key: "reduce_items (s\<lparr>payments := P, orders := ?X\<rparr>) ?its =
          (fst (reduce_items (s\<lparr>orders := ?X\<rparr>) ?its),
           (snd (reduce_items (s\<lparr>orders := ?X\<rparr>) ?its))\<lparr>payments := P\<rparr>)"
    by (simp only:)
  show ?thesis using Some
    by (simp add: mark_as_paid_def save_status_def order_items_def key)
qed

section \<open>Creating order items\<close>

lemma order_item_create_Inl:
  assumes "order_item_create s oid pid q pr = (Inl e, s')"
  shows "s' = s"
proof (cases "products s pid")
  case None
  with assms show ?thesis by (simp add: order_item_create_def)
next
  case (Some p)
  show ?thesis
  proof (cases "orders s oid")
    case None
    with assms Some show ?thesis by (simp add: order_item_create_def Let_def)
  next
    case (Some row)
    show ?thesis
    proof (cases "list_ex (\<lambda>it. order_id it = oid \<and> product_id it = pid) (items s)")
      case True
      with assms \<open>products s pid = Some p\<close> Some show ?thesis
        by (simp add: order_item_create_def Let_def)
    next
      case False
      with assms \<open>products s pid = Some p\<close> Some show ?thesis
        by (simp add: order_item_create_def Let_def recalculate_and_save_def split: if_splits)
    qed
  qed
qed


lemma order_item_create_Inr:
  assumes "order_item_create s oid pid q (Some (price_at s pid)) = (Inr iid, s')"
  shows "products s' = products s \<and> payments s' = payments s
       \<and> order_seq s' = order_seq s \<and> payment_seq s' = payment_seq s
       \<and> (\<exists>it. items s' = items s @ [it] \<and> new_item s oid (pid, q) it)
       \<and> (\<forall>k. k \<noteq> oid \<longrightarrow> orders s' k = orders s k)
       \<and> (\<exists>row. orders s oid = Some row
             \<and> orders s' oid = Some (if oid \<noteq> 0 then row\<lparr>total_amount := calculate_total s' oid\<rparr> else row))"
proof (cases "products s pid")
  case None
  with assms show ?thesis by (simp add: order_item_create_def)
next
  case (Some p)
  then have pa: "price_at s pid = price p" by (simp add: price_at_def)
  show ?thesis
  proof (cases "orders s oid")
    case None
    with assms Some show ?thesis by (simp add: order_item_create_def Let_def)
  next
    case row: (Some row)
    show ?thesis
    proof (cases "list_ex (\<lambda>it. order_id it = oid \<and> product_id it = pid) (items s)")
      case True
      with assms Some row show ?thesis by (simp add: order_item_create_def Let_def)
    next
      case False
      let ?it = "\<lparr>item_id = Suc (item_seq s), order_id = oid, product_id = pid, quantity = q,
                  item_price = price p, subtotal = q * price p\<rparr>"
      let ?s1 = "s\<lparr>items := items s @ [?it], item_seq := Suc (item_seq s)\<rparr>"
      have s': "s' = (if oid \<noteq> 0
                      then ?s1\<lparr>orders := (orders s)(oid \<mapsto> row\<lparr>total_amount := calculate_total ?s1 oid\<rparr>)\<rparr>
                      else ?s1)"
        using assms Some row False
        by (auto simp: order_item_create_def Let_def recalculate_and_save_def pa
              calculate_subtotal_def split: if_splits)
      have ni: "new_item s oid (pid, q) ?it" by (simp add: new_item_def pa)
      have ct: "calculate_total s' oid = calculate_total ?s1 oid"
        by (simp add: s' calculate_total_def order_items_def)
      have 1: "products s' = products s" "payments s' = payments s" "order_seq s' = order_seq s"
        "payment_seq s' = payment_seq s" "items s' = items s @ [?it]"
        by (simp_all add: s')
      have 2: "\<forall>k. k \<noteq> oid \<longrightarrow> orders s' k = orders s k" by (simp add: s')
      have 3: "orders s' oid = Some (if oid \<noteq> 0 then row\<lparr>total_amount := calculate_total s' oid\<rparr> else row)"
        unfolding ct using row by (auto simp: s')
      from 1 2 3 ni row show ?thesis by blast
    qed
  qed
qed

lemma log_fields [simp]:
  "products (log lvl msg s) = products s" "orders (log lvl msg s) = orders s"
  "items (log lvl msg s) = items s" "payments (log lvl msg s) = payments s"
  "order_seq (log lvl msg s) = order_seq s" "item_seq (log lvl msg s) = item_seq s"
  "payment_seq (log lvl msg s) = payment_seq s"
  by (simp_all add: log_def)

lemma price_at_cong: "products s1 = products s \<Longrightarrow> price_at s1 pid = price_at s pid"
  by (simp add: price_at_def)

lemma new_item_cong: "products s1 = products s \<Longrightarrow> new_item s1 oid x it = new_item s oid x it"
  by (simp add: new_item_def price_at_def)

lemma item_invalid_cong: "products s1 = products s \<Longrightarrow> item_invalid s1 x = item_invalid s x"
  by (cases x) simp


lemma add_items_step:
  assumes "add_items s oid ((pid, q) # rest) = (r, s')"
  shows "(item_invalid s (pid, q) \<and> isl r \<and> s' = s)
       \<or> (\<not> item_invalid s (pid, q) \<and>
            ((\<exists>e. order_item_create s oid pid q (Some (price_at s pid)) = (Inl e, s) \<and> r = Inl e \<and> s' = s)
           \<or> (\<exists>iid s1. order_item_create s oid pid q (Some (price_at s pid)) = (Inr iid, s1)
                 \<and> add_items (log Debug ''Added item'' s1) oid rest = (r, s'))))"
proof (cases "products s pid")
  case None
  with assms show ?thesis by auto
next
  case (Some p)
  then have pa: "price_at s pid = price p" by (simp add: price_at_def)
  show ?thesis
  proof (cases "\<not> is_available p \<or> stock p < q")
    case True
    with assms Some show ?thesis by (auto split: if_splits)
  next
    case False
    obtain r1 s1 where c: "order_item_create s oid pid q (Some (price p)) = (r1, s1)"
      by (cases "order_item_create s oid pid q (Some (price p))")
    have run: "(case r1 of Inl e \<Rightarrow> (Inl e, s1)
                | Inr iid \<Rightarrow> add_items (log Debug ''Added item'' s1) oid rest) = (r, s')"
      using assms Some False c by (simp split: sum.splits)
    have valid: "\<not> item_invalid s (pid, q)" using Some False by simp
    show ?thesis
    proof (cases r1)
      case (Inl e)
      with c order_item_create_Inl have "s1 = s" by blast
      with run Inl c pa valid show ?thesis by simp
    next
      case (Inr iid)
      with run c pa valid show ?thesis by simp
    qed
  qed
qed


lemma add_items_frame:
  "add_items s oid its = (r, s') \<Longrightarrow>
     products s' = products s \<and> payments s' = payments s \<and> order_seq s' = order_seq s
     \<and> payment_seq s' = payment_seq s \<and> (\<forall>k. k \<noteq> oid \<longrightarrow> orders s' k = orders s k)
     \<and> (\<exists>new. items s' = items s @ new)"
proof (induction its arbitrary: s)
  case Nil
  then show ?case by simp
next
  case (Cons x rest)
  obtain pid q where x: "x = (pid, q)" by (cases x)
  from add_items_step [OF Cons.prems [unfolded x]]
  show ?case
  proof (elim disjE conjE exE)
    fix iid s1
    assume c: "order_item_create s oid pid q (Some (price_at s pid)) = (Inr iid, s1)"
      and rest: "add_items (log Debug ''Added item'' s1) oid rest = (r, s')"
    from order_item_create_Inr [OF c] obtain it where
      one: "products s1 = products s" "payments s1 = payments s" "order_seq s1 = order_seq s"
        "payment_seq s1 = payment_seq s" "items s1 = items s @ [it]"
        "\<forall>k. k \<noteq> oid \<longrightarrow> orders s1 k = orders s k"
      by blast
    from Cons.IH [OF rest] obtain new where
      more: "products s' = products s1" "payments s' = payments s1" "order_seq s' = order_seq s1"
        "payment_seq s' = payment_seq s1" "items s' = items s1 @ new"
        "\<forall>k. k \<noteq> oid \<longrightarrow> orders s' k = orders s1 k"
      by auto
    from one more have "items s' = items s @ (it # new)" by simp
    with one more show ?thesis by simp
  qed simp_all
qed

lemma add_items_invalid:
  "list_ex (item_invalid s) its \<Longrightarrow> isl (fst (add_items s oid its))"
proof (induction its arbitrary: s)
  case Nil
  then show ?case by simp
next
  case (Cons x rest)
  obtain pid q where x: "x = (pid, q)" by (cases x)
  obtain r s' where run: "add_items s oid ((pid, q) # rest) = (r, s')"
    by (cases "add_items s oid ((pid, q) # rest)")
  from add_items_step [OF run]
  have "isl r"
  proof (elim disjE conjE exE)
    fix iid s1
    assume valid: "\<not> item_invalid s (pid, q)"
      and c: "order_item_create s oid pid q (Some (price_at s pid)) = (Inr iid, s1)"
      and rest: "add_items (log Debug ''Added item'' s1) oid rest = (r, s')"
    from order_item_create_Inr [OF c]
    have same: "products (log Debug ''Added item'' s1) = products s" by simp
    from Cons.prems valid x have "list_ex (item_invalid s) rest" by simp
    then have "list_ex (item_invalid (log Debug ''Added item'' s1)) rest"
      by (simp add: list_ex_iff item_invalid_cong [OF same])
    from Cons.IH [OF this] rest show ?thesis by simp
  qed simp_all
  then show ?case by (simp only: x run fst_conv)
qed

lemma add_items_new:
  "add_items s oid its = (Inr u, s') \<Longrightarrow>
     \<exists>new. items s' = items s @ new \<and> list_all2 (new_item s oid) its new"
proof (induction its arbitrary: s)
  case Nil
  then show ?case by simp
next
  case (Cons x rest)
  obtain pid q where x: "x = (pid, q)" by (cases x)
  from add_items_step [OF Cons.prems [unfolded x]]
  show ?case
  proof (elim disjE conjE exE)
    fix iid s1
    assume c: "order_item_create s oid pid q (Some (price_at s pid)) = (Inr iid, s1)"
      and rest: "add_items (log Debug ''Added item'' s1) oid rest = (Inr u, s')"
    from order_item_create_Inr [OF c] obtain it where
      it: "items s1 = items s @ [it]" "new_item s oid (pid, q) it"
      and same: "products (log Debug ''Added item'' s1) = products s"
      by auto
    from Cons.IH [OF rest] obtain new where
      new: "items s' = items s1 @ new" "list_all2 (new_item (log Debug ''Added item'' s1) oid) rest new"
      by auto
    have "new_item (log Debug ''Added item'' s1) oid = new_item s oid"
      by (intro ext) (rule new_item_cong [OF same])
    with new it x have "items s' = items s @ (it # new) \<and> list_all2 (new_item s oid) (x # rest) (it # new)"
      by simp
    then show ?thesis by blast
  qed simp_all
qed

lemma add_items_total:
  "add_items s oid its = (Inr u, s') \<Longrightarrow> its \<noteq> [] \<Longrightarrow> oid \<noteq> 0 \<Longrightarrow>
     \<exists>row. orders s' oid = Some row \<and> total_amount row = calculate_total s' oid"
proof (induction its arbitrary: s)
  case Nil
  then show ?case by simp
next
  case (Cons x rest)
  obtain pid q where x: "x = (pid, q)" by (cases x)
  from add_items_step [OF Cons.prems(1) [unfolded x]]
  show ?case
  proof (elim disjE conjE exE)
    fix iid s1
    assume c: "order_item_create s oid pid q (Some (price_at s pid)) = (Inr iid, s1)"
      and rest: "add_items (log Debug ''Added item'' s1) oid rest = (Inr u, s')"
    show ?thesis
    proof (cases "rest = []")
      case True
      with rest have "s' = log Debug ''Added item'' s1" by simp
      with order_item_create_Inr [OF c] Cons.prems(3) show ?thesis
        by (auto simp: calculate_total_def order_items_def)
    next
      case False
      from Cons.IH [OF rest False Cons.prems(3)] show ?thesis .
    qed
  qed simp_all
qed

section \<open>Creating an order: auxiliary facts\<close>

lemma create_order_Inl:
  "create_order s usr its nts = (Inl e, s') \<Longrightarrow>
     products s' = products s \<and> orders s' = orders s \<and> items s' = items s
     \<and> payments s' = payments s \<and> order_seq s' = order_seq s \<and> item_seq s' = item_seq s
     \<and> payment_seq s' = payment_seq s"
  by (auto simp: create_order_def atomic_def split: prod.splits sum.splits)

lemma create_order_Inr:
  assumes "create_order s usr its nts = (Inr oid, s')"
  shows "its \<noteq> [] \<and> oid = Suc (order_seq s) \<and> orders s oid = None
       \<and> (\<exists>s3. add_items
                  (log Info ''Creating order''
                     (s\<lparr>orders := (orders s)(oid \<mapsto>
                           \<lparr>user = usr, total_amount = 0, status = Pending, order_notes = nts\<rparr>),
                        order_seq := oid\<rparr>)) oid its = (Inr (), s3)
              \<and> s' = log Info ''Order created successfully'' s3)"
proof -
  from assms have body: "create_order_body usr its nts s = (Inr oid, s')"
    by (auto simp: create_order_def atomic_def split: prod.splits sum.splits)
  then have ne: "its \<noteq> []" and free: "orders s (Suc (order_seq s)) = None"
    by (auto simp: create_order_body_def Let_def split: if_splits)
  let ?s2 = "log Info ''Creating order''
                     (s\<lparr>orders := (orders s)(Suc (order_seq s) \<mapsto>
                           \<lparr>user = usr, total_amount = 0, status = Pending, order_notes = nts\<rparr>),
                        order_seq := Suc (order_seq s)\<rparr>)"
  obtain r3 s3 where run: "add_items ?s2 (Suc (order_seq s)) its = (r3, s3)"
    by (cases "add_items ?s2 (Suc (order_seq s)) its")
  from body ne free run have "r3 = Inr () \<and> oid = Suc (order_seq s)
      \<and> s' = log Info ''Order created successfully'' s3"
    by (cases r3) (auto simp: create_order_body_def Let_def)
  with ne free run show ?thesis by auto
qed



lemma add_items_order_row:
  "add_items s oid its = (r, s') \<Longrightarrow> orders s oid = Some row0 \<Longrightarrow>
     \<exists>row. orders s' oid = Some row \<and> status row = status row0 \<and> user row = user row0
           \<and> order_notes row = order_notes row0"
proof (induction its arbitrary: s row0)
  case Nil
  then show ?case by simp
next
  case (Cons x rest)
  obtain pid q where x: "x = (pid, q)" by (cases x)
  from add_items_step [OF Cons.prems(1) [unfolded x]]
  show ?case
  proof (elim disjE conjE exE)
    fix iid s1
    assume c: "order_item_create s oid pid q (Some (price_at s pid)) = (Inr iid, s1)"
      and rest: "add_items (log Debug ''Added item'' s1) oid rest = (r, s')"
    from order_item_create_Inr [OF c] Cons.prems(2)
    obtain row1 where row1: "orders s1 oid = Some row1" "status row1 = status row0"
      "user row1 = user row0" "order_notes row1 = order_notes row0"
      by (cases "oid = 0") auto
    then have "orders (log Debug ''Added item'' s1) oid = Some row1" by simp
    from Cons.IH [OF rest this] row1 show ?thesis by auto
  qed (use Cons.prems(2) in simp_all)
qed



lemma create_order_result:
  assumes "create_order s usr its nts = (Inr oid, s')"
  shows "orders s oid = None \<and> products s' = products s \<and> payments s' = payments s
       \<and> (\<forall>k. k \<noteq> oid \<longrightarrow> orders s' k = orders s k)
       \<and> (\<exists>row new. orders s' oid = Some row \<and> status row = Pending \<and> user row = usr
              \<and> total_amount row = calculate_total s' oid
              \<and> items s' = items s @ new \<and> list_all2 (new_item s oid) its new)"
proof -
  let ?row0 = "\<lparr>user = usr, total_amount = 0, status = Pending, order_notes = nts\<rparr>"
  let ?s2 = "log Info ''Creating order''
               (s\<lparr>orders := (orders s)(oid \<mapsto> ?row0), order_seq := oid\<rparr>)"
  from create_order_Inr [OF assms] obtain s3 where
    ne: "its \<noteq> []" and oid: "oid = Suc (order_seq s)" and free: "orders s oid = None"
    and run: "add_items ?s2 oid its = (Inr (), s3)"
    and s': "s' = log Info ''Order created successfully'' s3"
    by blast
  have p2: "products ?s2 = products s" by simp
  from add_items_frame [OF run]
  have fr: "products s3 = products s" "payments s3 = payments s"
    "\<forall>k. k \<noteq> oid \<longrightarrow> orders s3 k = orders s k"
    by simp_all
  from add_items_new [OF run] obtain new where
    new: "items s3 = items s @ new" "list_all2 (new_item ?s2 oid) its new"
    by auto
  have "new_item ?s2 oid = new_item s oid"
    by (intro ext) (rule new_item_cong [OF p2])
  with new have new': "list_all2 (new_item s oid) its new" by simp
  from oid have "oid \<noteq> 0" by simp
  from add_items_total [OF run ne this] obtain row where
    row: "orders s3 oid = Some row" "total_amount row = calculate_total s3 oid"
    by blast
  have "orders ?s2 oid = Some ?row0" by simp
  from add_items_order_row [OF run this] row
  have st: "status row = Pending" "user row = usr" by auto
  have ct: "calculate_total s' oid = calculate_total s3 oid"
    by (simp add: s' calculate_total_def order_items_def)
  from free fr new new' row st ct show ?thesis
    by (auto simp: s')
qed

lemma create_order_shop:
  "fst (create_order shop 7 [(1, 2)] []) = Inr 1"
  by (simp add: create_order_def atomic_def create_order_body_def shop_def Let_def log_def
        is_available_def order_item_create_def recalculate_and_save_def calculate_subtotal_def
        calculate_total_def order_items_def)

section \<open>Cancelling an order: auxiliary facts\<close>

lemma cancel_unpaid:
  "orders s oid = Some row \<Longrightarrow> status row \<noteq> Paid \<Longrightarrow> status row \<noteq> Shipped \<Longrightarrow>
   status row \<noteq> Delivered \<Longrightarrow>
     cancel s oid row = (Inr (), s\<lparr>orders := (orders s)(oid \<mapsto> row\<lparr>status := Cancelled\<rparr>)\<rparr>)"
  by (simp add: cancel_def save_status_def)

lemma cancel_refused:
  "orders s oid = Some row \<Longrightarrow> status row = Shipped \<or> status row = Delivered \<Longrightarrow>
     cancel s oid row = (Inl (ValueError ''Cannot cancel order''), s)"
  by (auto simp: cancel_def)

lemma cancel_paid:
  assumes "orders s oid = Some row" "status row = Paid"
  shows "cancel s oid row =
     (case increase_items s (order_items s oid) of
        (Inl e, s1) \<Rightarrow> (Inl e, s1)
      | (Inr u, s1) \<Rightarrow> (Inr (), s1\<lparr>orders := (orders s1)(oid \<mapsto> row\<lparr>status := Cancelled\<rparr>)\<rparr>))"
proof -
  obtain r s1 where run: "increase_items s (order_items s oid) = (r, s1)"
    by (cases "increase_items s (order_items s oid)")
  from increase_items_frame [OF run] assms have "orders s1 oid = Some row" by simp
  with assms run show ?thesis
    by (cases r) (simp_all add: cancel_def save_status_def)
qed

lemma cancel_paid_Inr:
  assumes "orders s oid = Some row" "status row = Paid" "cancel s oid row = (Inr u, s')"
  shows "stock_of s' k = map_option (\<lambda>n. n + qty_for k (order_items s oid)) (stock_of s k)"
    and "orders s' oid = Some (row\<lparr>status := Cancelled\<rparr>)"
proof -
  obtain r s1 where run: "increase_items s (order_items s oid) = (r, s1)"
    by (cases "increase_items s (order_items s oid)")
  with assms cancel_paid [OF assms(1,2)] obtain u1 where r: "r = Inr u1"
    and s': "s' = s1\<lparr>orders := (orders s1)(oid \<mapsto> row\<lparr>status := Cancelled\<rparr>)\<rparr>"
    by (cases r) auto
  from increase_items_stock [OF run [unfolded r]] s'
  show "stock_of s' k = map_option (\<lambda>n. n + qty_for k (order_items s oid)) (stock_of s k)"
    by simp
  from s' show "orders s' oid = Some (row\<lparr>status := Cancelled\<rparr>)" by simp
qed

lemma cancel_paid_Inl:
  assumes "orders s oid = Some row" "status row = Paid" "cancel s oid row = (Inl e, s')"
  shows "orders s' oid = Some row"
proof -
  obtain r s1 where run: "increase_items s (order_items s oid) = (r, s1)"
    by (cases "increase_items s (order_items s oid)")
  with assms cancel_paid [OF assms(1,2)] have "s' = s1" by (cases r) auto
  with increase_items_frame [OF run] assms show ?thesis by simp
qed

lemma cancel_after_mark_as_paid:
  assumes "mark_as_paid s0 oid self = (Inr u, s)"
  shows "\<exists>row s'. orders s oid = Some row \<and> status row = Paid
              \<and> cancel s oid row = (Inr (), s') \<and> (\<forall>k. stock_of s' k = stock_of s0 k)
              \<and> map_option status (orders s' oid) = Some Cancelled"
proof -
  from mark_as_paid_Inr_pending [OF assms]
  obtain row0 where row0: "orders s0 oid = Some row0" and pending: "status self = Pending"
    by blast
  let ?s1 = "s0\<lparr>orders := (orders s0)(oid \<mapsto> row0\<lparr>status := Paid\<rparr>)\<rparr>"
  let ?its = "order_items s0 oid"
  let ?row = "row0\<lparr>status := Paid\<rparr>"
  from assms row0 pending have red: "reduce_items ?s1 ?its = (Inr u, s)"
    by (simp add: mark_as_paid_pending)
  from reduce_items_frame [OF red]
  have fr: "orders s = orders ?s1" "items s = items s0" by simp_all
  then have its: "order_items s oid = ?its" by (simp add: order_items_def)
  have paid: "orders s oid = Some ?row" using fr by simp
  have paid': "status ?row = Paid" by simp
  note down = reduce_items_stock [OF red]
  have same: "products s k = None \<longleftrightarrow> products s0 k = None" for k
    using down [of k] stock_of_None [of s k] stock_of_None [of ?s1 k]
    by (cases "stock_of ?s1 k") (auto simp: stock_of_def)
  from reduce_items_requires [OF red]
  have "list_all (\<lambda>it. 0 < quantity it \<and> products s (product_id it) \<noteq> None) ?its"
    by (simp add: same)
  from increase_items_succeeds [OF this]
  obtain s1 where inc: "increase_items s ?its = (Inr (), s1)" by blast
  let ?s' = "s1\<lparr>orders := (orders s1)(oid \<mapsto> ?row\<lparr>status := Cancelled\<rparr>)\<rparr>"
  have c: "cancel s oid ?row = (Inr (), ?s')"
    using cancel_paid [OF paid paid'] inc its by simp
  note up = increase_items_stock [OF inc]
  have "stock_of ?s' k = stock_of s0 k" for k
  proof -
    have "stock_of s k = map_option (\<lambda>n. n - qty_for k ?its) (stock_of s0 k)"
      using down [of k] by simp
    moreover have "stock_of ?s' k = map_option (\<lambda>n. n + qty_for k ?its) (stock_of s k)"
      using up [of k] by simp
    ultimately show ?thesis
      by (cases "stock_of s0 k") simp_all
  qed
  with c paid paid' show ?thesis by auto
qed

lemma cancel_order_refused:
  assumes "orders s oid = Some row" "usr = None \<or> usr = Some (user row)"
    and "status row = Shipped \<or> status row = Delivered"
  shows "cancel_order s oid usr =
           (Inl (ValidationError ''Cannot cancel order''),
            s\<lparr>logs := logs s @ [(Error, ''Failed to cancel order'')]\<rparr>)"
  using assms cancel_refused [OF assms(1,3)]
  by (auto simp: cancel_order_def cancel_order_body_def atomic_def get_order_details_def log_def)

lemma cancel_order_unpaid:
  assumes "orders s oid = Some row" "usr = None \<or> usr = Some (user row)"
    and "status row = Pending \<or> status row = Processing \<or> status row = Cancelled"
  shows "cancel_order s oid usr =
           (Inr oid, s\<lparr>orders := (orders s)(oid \<mapsto> row\<lparr>status := Cancelled\<rparr>),
                       logs := logs s @ [(Info, ''Order cancelled successfully'')]\<rparr>)"
proof -
  from assms(3) have "status row \<noteq> Paid" "status row \<noteq> Shipped" "status row \<noteq> Delivered"
    by auto
  from cancel_unpaid [OF assms(1) this] assms(1,2) show ?thesis
    by (auto simp: cancel_order_def cancel_order_body_def atomic_def get_order_details_def log_def)
qed

lemma cancel_order_Inl_frame:
  "cancel_order s oid usr = (Inl e, s') \<Longrightarrow>
     products s' = products s \<and> orders s' = orders s \<and> items s' = items s \<and> payments s' = payments s"
  by (auto simp: cancel_order_def atomic_def split: prod.splits sum.splits)

lemma cancel_order_Inr:
  "cancel_order s oid usr = (Inr x, s') \<Longrightarrow>
     \<exists>row s1. orders s oid = Some row \<and> cancel s oid row = (Inr (), s1)
            \<and> s' = log Info ''Order cancelled successfully'' s1"
  by (auto simp: cancel_order_def cancel_order_body_def atomic_def get_order_details_def
           split: prod.splits sum.splits error.splits option.splits if_splits)

lemma increase_items_error:
  "increase_items s its = (Inl e, s') \<Longrightarrow>
     e = ValueError ''Quantity must be positive'' \<or> e = DoesNotExist ''Product''"
proof (induction its arbitrary: s)
  case Nil
  then show ?case by simp
next
  case (Cons it its)
  obtain r1 s1 where step: "product_increase_stock s (product_id it) (quantity it) = (r1, s1)"
    by (cases "product_increase_stock s (product_id it) (quantity it)")
  show ?case
  proof (cases r1)
    case (Inl e1)
    with Cons.prems step have "e = e1" by simp
    with step Inl show ?thesis
      by (auto simp: product_increase_stock_def increase_stock_def Let_def
               split: option.splits if_splits)
  next
    case (Inr u)
    with Cons.prems step have "increase_items s1 its = (Inl e, s')" by simp
    from Cons.IH [OF this] show ?thesis .
  qed
qed

lemma cancel_paid_error:
  assumes "orders s oid = Some row" "status row = Paid"
  shows "fst (cancel s oid row) \<noteq> Inl (ValueError ''Cannot cancel order'')
       \<and> fst (cancel s oid row) \<noteq> Inl (ValidationError ''Cannot cancel order'')"
proof -
  obtain r s1 where run: "increase_items s (order_items s oid) = (r, s1)"
    by (cases "increase_items s (order_items s oid)")
  show ?thesis
  proof (cases r)
    case (Inl e)
    with increase_items_error run
    have "e \<noteq> ValueError ''Cannot cancel order'' \<and> e \<noteq> ValidationError ''Cannot cancel order''"
      by fastforce
    with cancel_paid [OF assms] run Inl show ?thesis by simp
  next
    case (Inr u)
    with cancel_paid [OF assms] run show ?thesis by simp
  qed
qed

section \<open>Product stock and status\<close>

text \<open>
  Claim C10. For a product row \<open>p\<close> and a quantity \<open>q\<close>: \<^verbatim>\<open>reduce_stock\<close> and
  \<^verbatim>\<open>increase_stock\<close> raise for \<open>q \<le> 0\<close>, \<^verbatim>\<open>reduce_stock\<close> raises for \<open>q\<close> above the
  stock, and in each case the database is what it was; a \<^verbatim>\<open>reduce_stock\<close> of exactly the
  stock stores stock 0 with status \<^verbatim>\<open>out_of_stock\<close>, for which \<^verbatim>\<open>is_available\<close> is
  false; an \<^verbatim>\<open>increase_stock\<close> that is accepted on an \<^verbatim>\<open>out_of_stock\<close> product stores
  status \<^verbatim>\<open>active\<close>.
\<close>

theorem product_stock_status_coupled:
  assumes "products s pid = Some p"
  shows "(q \<le> 0 \<longrightarrow>
            product_reduce_stock s pid q = (Inl (ValueError ''Quantity must be positive''), s) \<and>
            product_increase_stock s pid q = (Inl (ValueError ''Quantity must be positive''), s))
       \<and> (stock p < q \<longrightarrow> isl (fst (product_reduce_stock s pid q)) \<and>
            snd (product_reduce_stock s pid q) = s)
       \<and> (0 < q \<and> q = stock p \<longrightarrow>
            (\<exists>p'. product_reduce_stock s pid q = (Inr (), s\<lparr>products := (products s)(pid \<mapsto> p')\<rparr>) \<and>
                  stock p' = 0 \<and> pstatus p' = Out_of_stock \<and> \<not> is_available p'))
       \<and> (0 < q \<and> pstatus p = Out_of_stock \<longrightarrow>
            (\<exists>p'. product_increase_stock s pid q = (Inr (), s\<lparr>products := (products s)(pid \<mapsto> p')\<rparr>) \<and>
                  stock p' = stock p + q \<and> pstatus p' = Active))"
  using assms
  by (auto simp: product_reduce_stock_def product_increase_stock_def reduce_stock_def
        increase_stock_def is_available_def Let_def)

theorem product_stock_status_coupled_witness:
  "fst (product_reduce_stock (shop_with_order Paid 2) 1 0) = Inl (ValueError ''Quantity must be positive'')
   \<and> isl (fst (product_reduce_stock (shop_with_order Paid 2) 1 3))
   \<and> (\<exists>p'. product_reduce_stock (shop_with_order Paid 2) 1 2 =
            (Inr (), (shop_with_order Paid 2)\<lparr>products := (products (shop_with_order Paid 2))(1 \<mapsto> p')\<rparr>)
          \<and> pstatus p' = Out_of_stock)"
proof -
  have h: "products (shop_with_order Paid 2) 1 = Some \<lparr>price = 5000, stock = 2, pstatus = Active\<rparr>"
    by (simp add: shop_with_order_def)
  from product_stock_status_coupled [OF h, of 0] product_stock_status_coupled [OF h, of 3]
       product_stock_status_coupled [OF h, of 2]
  show ?thesis by (simp del: One_nat_def) blast
qed

section \<open>Marking an order paid\<close>

lemmas mark_as_paid_defs =
  mark_as_paid_def save_status_def shop_with_order_def order_items_def order_row_def
  product_reduce_stock_def reduce_stock_def stock_of_def Let_def

text \<open>
  Claim C3, as the code has it. \<^verbatim>\<open>mark_as_paid\<close> raises the \<^verbatim>\<open>ValueError\<close> of its guard,
  and changes nothing, on every order object whose status is not \<^verbatim>\<open>pending\<close>; so a call
  that returns normally was made on a \<^verbatim>\<open>pending\<close> object. After a first call on a
  \<^verbatim>\<open>pending\<close> order as loaded from the table, the row is \<^verbatim>\<open>paid\<close>, whether the first call
  returned or raised in its stock loop, and a second call on the order loaded again is
  refused and changes nothing. When the first call returned normally, the stock of every
  product after both calls is its stock before the first minus the quantity the order holds
  of it.
\<close>

theorem mark_as_paid_reloaded_once:
  assumes "orders s oid = Some row" and "mark_as_paid s oid row = (r, s1)"
  shows "(status self \<noteq> Pending \<longrightarrow>
            mark_as_paid s' oid' self = (Inl (ValueError ''Cannot mark order as paid''), s'))
       \<and> (r = Inr () \<longrightarrow> status row = Pending)
       \<and> (status row = Pending \<longrightarrow>
            (\<exists>row1. orders s1 oid = Some row1 \<and> status row1 = Paid
               \<and> mark_as_paid s1 oid row1 = (Inl (ValueError ''Cannot mark order as paid''), s1)))
       \<and> (r = Inr () \<longrightarrow>
            (\<forall>k. stock_of s1 k = map_option (\<lambda>n. n - qty_for k (order_items s oid)) (stock_of s k)))"
proof -
  have a: "mark_as_paid s' oid' self = (Inl (ValueError ''Cannot mark order as paid''), s')"
    if "status self \<noteq> Pending"
    using that by (rule mark_as_paid_refused)
  have b: "status row = Pending" if "r = Inr ()"
    using mark_as_paid_Inr_pending [of s oid row "()" s1] assms(2) that by simp
  have c: "\<exists>row1. orders s1 oid = Some row1 \<and> status row1 = Paid
               \<and> mark_as_paid s1 oid row1 = (Inl (ValueError ''Cannot mark order as paid''), s1)"
    if pending: "status row = Pending"
  proof -
    from mark_as_paid_status [OF assms(1) pending assms(2)]
    have "orders s1 oid = Some (row\<lparr>status := Paid\<rparr>)" .
    moreover have "mark_as_paid s1 oid (row\<lparr>status := Paid\<rparr>) =
        (Inl (ValueError ''Cannot mark order as paid''), s1)"
      by (simp add: mark_as_paid_refused)
    ultimately show ?thesis by simp
  qed
  have d: "stock_of s1 k = map_option (\<lambda>n. n - qty_for k (order_items s oid)) (stock_of s k)"
    if ok: "r = Inr ()" for k
  proof -
    from b [OF ok] assms ok
    have "reduce_items (s\<lparr>orders := (orders s)(oid \<mapsto> row\<lparr>status := Paid\<rparr>)\<rparr>)
            (order_items s oid) = (Inr (), s1)"
      by (simp add: mark_as_paid_pending)
    from reduce_items_stock [OF this] show ?thesis by simp
  qed
  from a b c d show ?thesis by blast
qed

theorem mark_as_paid_reloaded_once_witness:
  "(\<exists>row1. orders (snd (mark_as_paid (shop_with_order Pending 10) 1 (order_row Pending))) 1 = Some row1
      \<and> status row1 = Paid
      \<and> mark_as_paid (snd (mark_as_paid (shop_with_order Pending 10) 1 (order_row Pending))) 1 row1 =
          (Inl (ValueError ''Cannot mark order as paid''),
           snd (mark_as_paid (shop_with_order Pending 10) 1 (order_row Pending))))
   \<and> stock_of (snd (mark_as_paid (shop_with_order Pending 10) 1 (order_row Pending))) 1 = Some 8"
proof -
  let ?s = "shop_with_order Pending 10"
  have row: "orders ?s 1 = Some (order_row Pending)"
    by (simp add: shop_with_order_def order_row_def)
  have run: "mark_as_paid ?s 1 (order_row Pending) =
               (Inr (), snd (mark_as_paid ?s 1 (order_row Pending)))"
    by (simp add: mark_as_paid_defs)
  have p: "status (order_row Pending) = Pending" by (simp add: order_row_def)
  have "qty_for 1 (order_items ?s 1) = 2" and "stock_of ?s 1 = Some 10"
    by (simp_all add: qty_for_def order_items_def shop_with_order_def stock_of_def)
  with mark_as_paid_reloaded_once [OF row run, THEN conjunct2, THEN conjunct2] p
  show ?thesis by simp
qed

text \<open>
  The claim as written fails on the code in two ways. With one in stock and two ordered,
  the first call saves \<^verbatim>\<open>paid\<close> and raises in its stock loop; the second call on the
  reloaded order is refused, and the stock was decremented not once but never. And the
  guard reads the object, not the table: a second call on the object loaded before the
  first call returns normally and takes the quantity a second time (stock 10, 8, 6); a
  status poll overtaken by the webhook does exactly that (stock 8, 6, 4).
\<close>

theorem mark_as_paid_twice_counterexample:
  "fst (mark_as_paid (shop_with_order Pending 1) 1 (order_row Pending))
     = Inl (ValueError ''Insufficient stock'')
   \<and> orders (snd (mark_as_paid (shop_with_order Pending 1) 1 (order_row Pending))) 1
       = Some (order_row Paid)
   \<and> fst (mark_as_paid (snd (mark_as_paid (shop_with_order Pending 1) 1 (order_row Pending))) 1
          (order_row Paid))
       = Inl (ValueError ''Cannot mark order as paid'')
   \<and> stock_of (snd (mark_as_paid (snd (mark_as_paid (shop_with_order Pending 1) 1
          (order_row Pending))) 1 (order_row Paid))) 1 = Some 1
   \<and> fst (mark_as_paid (shop_with_order Pending 10) 1 (order_row Pending)) = Inr ()
   \<and> fst (mark_as_paid (snd (mark_as_paid (shop_with_order Pending 10) 1 (order_row Pending))) 1
          (order_row Pending)) = Inr ()
   \<and> stock_of (snd (mark_as_paid (snd (mark_as_paid (shop_with_order Pending 10) 1
          (order_row Pending))) 1 (order_row Pending))) 1 = Some 6
   \<and> stock_of (snd (stripe_webhook_view (shop_with_payment Pending Pay_pending None)
          (Webhook_event ''payment_intent.succeeded'' ''pi_1'' Error_absent ''event'') 100)) 1
       = Some 6
   \<and> fst (poll_overtaken_by_webhook (shop_with_payment Pending Pay_pending None) 7 False ''pi_1''
          (Webhook_event ''payment_intent.succeeded'' ''pi_1'' Error_absent ''event'') 100
          (Answer_ok ''succeeded'' None) 200) = 200
   \<and> stock_of (snd (poll_overtaken_by_webhook (shop_with_payment Pending Pay_pending None) 7 False
          ''pi_1'' (Webhook_event ''payment_intent.succeeded'' ''pi_1'' Error_absent ''event'') 100
          (Answer_ok ''succeeded'' None) 200)) 1 = Some 4"
  by (simp add: mark_as_paid_defs poll_overtaken_by_webhook_def stripe_webhook_view_def
        payment_status_begin_def payment_status_finish_def load_payment_def get_payment_def
        payments_with_def shop_with_payment_def mark_as_success_def new_raw_response_def
        get_payment_strategy_def lower_def lower_char_def log_def)

text \<open>
  Claim C4. The order of a payment is \<^verbatim>\<open>pending\<close> and a \<^verbatim>\<open>reduce_stock\<close> of
  \<^verbatim>\<open>mark_as_paid\<close> raises its \<^verbatim>\<open>ValueError\<close>. The status \<^verbatim>\<open>paid\<close> was saved before
  the loop, so the order is \<^verbatim>\<open>paid\<close> when the exception leaves \<^verbatim>\<open>mark_as_paid\<close>. Its
  caller \<^verbatim>\<open>Payment.mark_as_success\<close> catches the exception and logs a warning: it
  returns normally, the payment is \<^verbatim>\<open>success\<close> and the order is \<^verbatim>\<open>paid\<close>. The payment
  and the order are the objects as loaded from the tables, the order by the view or by
  \<^verbatim>\<open>mark_as_success\<close> itself.
\<close>

theorem stock_failure_keeps_order_paid:
  assumes pay: "payments s pid = Some self"
    and row: "orders s (pay_order self) = Some row" "status row = Pending"
    and cached: "cached = None \<or> cached = Some row"
    and fails: "fst (mark_as_paid s (pay_order self) row) = Inl (ValueError m)"
  shows "map_option status (orders (snd (mark_as_paid s (pay_order self) row)) (pay_order self))
           = Some Paid
       \<and> fst (mark_as_success s pid self cached now td) = Inr ()
       \<and> map_option status (orders (snd (mark_as_success s pid self cached now td)) (pay_order self))
           = Some Paid
       \<and> map_option pay_status (payments (snd (mark_as_success s pid self cached now td)) pid)
           = Some Success
       \<and> logs (snd (mark_as_success s pid self cached now td)) =
           logs s @ [(Warning, ''Payment succeeded but order update failed'')]"
proof -
  obtain r s' where run: "mark_as_paid s (pay_order self) row = (r, s')"
    by (cases "mark_as_paid s (pay_order self) row")
  with fails have r: "r = Inl (ValueError m)" by simp
  from mark_as_paid_status [OF row run]
  have paid: "orders s' (pay_order self) = Some (row\<lparr>status := Paid\<rparr>)" .
  from row run have "reduce_items (s\<lparr>orders := (orders s)(pay_order self \<mapsto> row\<lparr>status := Paid\<rparr>)\<rparr>)
      (order_items s (pay_order self)) = (r, s')"
    by (simp add: mark_as_paid_pending)
  from reduce_items_frame [OF this] have fr: "logs s' = logs s" "payments s' = payments s"
    by simp_all
  define self' where "self' = self\<lparr>pay_status := Success, completed_at := Some now,
                           raw_response := new_raw_response self td\<rparr>"
  have ms: "mark_as_success s pid self cached now td =
     (Inr (), log Warning ''Payment succeeded but order update failed''
        (s'\<lparr>payments := (payments s)(pid \<mapsto> self')\<rparr>))"
  proof (cases cached)
    case None
    with pay run r row show ?thesis
      by (simp add: mark_as_success_def Let_def mark_as_paid_payments self'_def)
  next
    case (Some ord)
    with cached have "cached = Some row" by simp
    with pay run r show ?thesis
      by (simp add: mark_as_success_def Let_def mark_as_paid_payments self'_def)
  qed
  show ?thesis
    using paid fr run by (simp add: ms log_def self'_def)
qed

theorem stock_failure_keeps_order_paid_witness:
  "map_option status (orders (snd (mark_as_success
      ((shop_with_order Pending 1)\<lparr>payments := [1 \<mapsto>
          \<lparr>pay_order = 1, provider = ''stripe'', transaction_id = ''pi_1'', amount = 10000,
           currency = ''USD'', pay_status = Pay_pending, raw_response = [], error_message = [],
           refund_metadata = None, completed_at = None\<rparr>], payment_seq := 1\<rparr>) 1
      \<lparr>pay_order = 1, provider = ''stripe'', transaction_id = ''pi_1'', amount = 10000,
       currency = ''USD'', pay_status = Pay_pending, raw_response = [], error_message = [],
       refund_metadata = None, completed_at = None\<rparr> None 5 None)) 1) = Some Paid"
proof -
  let ?p = "\<lparr>pay_order = 1, provider = ''stripe'', transaction_id = ''pi_1'', amount = 10000,
           currency = ''USD'', pay_status = Pay_pending, raw_response = [], error_message = [],
           refund_metadata = None, completed_at = None\<rparr>"
  let ?s = "(shop_with_order Pending 1)\<lparr>payments := [1 \<mapsto> ?p], payment_seq := 1\<rparr>"
  let ?row = "\<lparr>user = 7, total_amount = 10000, status = Pending, order_notes = []\<rparr>"
  have a: "payments ?s 1 = Some ?p" by simp
  have b: "orders ?s (pay_order ?p) = Some ?row"
    by (simp add: shop_with_order_def)
  have c: "status ?row = Pending"
    by simp
  have e: "(None :: order option) = None \<or> None = Some ?row" by simp
  have d: "fst (mark_as_paid ?s (pay_order ?p) ?row) = Inl (ValueError ''Insufficient stock'')"
    by (simp add: mark_as_paid_def save_status_def shop_with_order_def order_items_def
          product_reduce_stock_def reduce_stock_def Let_def)
  from stock_failure_keeps_order_paid [OF a b c e d, of 5 None] show ?thesis by simp
qed

section \<open>Cancelling an order\<close>

lemmas cancel_defs =
  cancel_def save_status_def shop_with_order_def order_items_def order_row_def
  product_increase_stock_def increase_stock_def stock_of_def Let_def

text \<open>
  Claim C9, as the code has it. \<^verbatim>\<open>Order.cancel\<close> on a \<^verbatim>\<open>paid\<close> order, as loaded from
  the table, that returns normally has raised the stock of every product by the quantity
  the order holds of it, and the order is \<^verbatim>\<open>cancelled\<close>; when an \<^verbatim>\<open>increase_stock\<close>
  raises, the status is still \<^verbatim>\<open>paid\<close>, so the status moves only after the restoration.
  After a \<^verbatim>\<open>mark_as_paid\<close> that returned normally, \<^verbatim>\<open>cancel\<close> returns normally and every
  stock is what it was before the order was paid. On a \<^verbatim>\<open>pending\<close> order \<^verbatim>\<open>cancel\<close>
  leaves the products table as it is.
\<close>

theorem cancel_restores_stock:
  assumes "orders s oid = Some row"
  shows "(status row = Paid \<and> cancel s oid row = (Inr u, s') \<longrightarrow>
            (\<forall>k. stock_of s' k = map_option (\<lambda>n. n + qty_for k (order_items s oid)) (stock_of s k))
            \<and> map_option status (orders s' oid) = Some Cancelled)
       \<and> (status row = Paid \<and> cancel s oid row = (Inl e, s') \<longrightarrow>
            map_option status (orders s' oid) = Some Paid)
       \<and> (status row = Paid \<and> mark_as_paid s0 oid self0 = (Inr u, s) \<longrightarrow>
            (\<exists>s2. cancel s oid row = (Inr (), s2) \<and> (\<forall>k. stock_of s2 k = stock_of s0 k)))
       \<and> (status row = Pending \<longrightarrow>
            fst (cancel s oid row) = Inr () \<and> products (snd (cancel s oid row)) = products s
            \<and> map_option status (orders (snd (cancel s oid row)) oid) = Some Cancelled)"
proof -
  have a: "(\<forall>k. stock_of s' k = map_option (\<lambda>n. n + qty_for k (order_items s oid)) (stock_of s k))
            \<and> map_option status (orders s' oid) = Some Cancelled"
    if "status row = Paid" "cancel s oid row = (Inr u, s')"
    using cancel_paid_Inr [OF assms that] by simp
  have b: "map_option status (orders s' oid) = Some Paid"
    if "status row = Paid" "cancel s oid row = (Inl e, s')"
    using cancel_paid_Inl [OF assms that] that by simp
  have c: "\<exists>s2. cancel s oid row = (Inr (), s2) \<and> (\<forall>k. stock_of s2 k = stock_of s0 k)"
    if "mark_as_paid s0 oid self0 = (Inr u, s)"
    using cancel_after_mark_as_paid [OF that] assms by auto
  have d: "fst (cancel s oid row) = Inr () \<and> products (snd (cancel s oid row)) = products s
            \<and> map_option status (orders (snd (cancel s oid row)) oid) = Some Cancelled"
    if "status row = Pending"
    using cancel_unpaid [OF assms] that by simp
  from a b c d show ?thesis by blast
qed

theorem cancel_restores_stock_witness:
  "stock_of (snd (cancel (shop_with_order Paid 8) 1 (order_row Paid))) 1 = Some 10
   \<and> map_option status (orders (snd (cancel (shop_with_order Paid 8) 1 (order_row Paid))) 1)
       = Some Cancelled
   \<and> products (snd (cancel (shop_with_order Pending 10) 1 (order_row Pending)))
       = products (shop_with_order Pending 10)"
proof -
  have paid: "orders (shop_with_order Paid 8) 1 = Some (order_row Paid)"
    and pending: "orders (shop_with_order Pending 10) 1 = Some (order_row Pending)"
    by (simp_all add: shop_with_order_def order_row_def)
  have st: "status (order_row Paid) = Paid" "status (order_row Pending) = Pending"
    by (simp_all add: order_row_def)
  have run: "cancel (shop_with_order Paid 8) 1 (order_row Paid) =
               (Inr (), snd (cancel (shop_with_order Paid 8) 1 (order_row Paid)))"
    by (simp add: cancel_defs)
  have "qty_for 1 (order_items (shop_with_order Paid 8) 1) = 2"
    and "stock_of (shop_with_order Paid 8) 1 = Some 8"
    by (simp_all add: qty_for_def order_items_def shop_with_order_def stock_of_def)
  with cancel_restores_stock [OF paid, of "()" "snd (cancel (shop_with_order Paid 8) 1 (order_row Paid))",
         THEN conjunct1]
       cancel_restores_stock [OF pending, THEN conjunct2, THEN conjunct2, THEN conjunct2]
       run st
  show ?thesis by simp
qed

text \<open>
  The claim as written has the cancellation restore exactly what \<^verbatim>\<open>mark_as_paid\<close>
  decremented. With one in stock and two ordered, \<^verbatim>\<open>mark_as_paid\<close> saves \<^verbatim>\<open>paid\<close> and
  raises in its stock loop, so nothing was decremented; cancelling that paid order, through
  \<^verbatim>\<open>Order.cancel\<close> or \<^verbatim>\<open>cancel_order\<close>, adds the two all the same, and the stock goes
  from 1 to 3.
\<close>

theorem cancel_restores_more_counterexample:
  "stock_of (shop_with_order Pending 1) 1 = Some 1
   \<and> fst (mark_as_paid (shop_with_order Pending 1) 1 (order_row Pending))
       = Inl (ValueError ''Insufficient stock'')
   \<and> orders (snd (mark_as_paid (shop_with_order Pending 1) 1 (order_row Pending))) 1
       = Some (order_row Paid)
   \<and> stock_of (snd (mark_as_paid (shop_with_order Pending 1) 1 (order_row Pending))) 1 = Some 1
   \<and> fst (cancel (snd (mark_as_paid (shop_with_order Pending 1) 1 (order_row Pending))) 1
          (order_row Paid)) = Inr ()
   \<and> stock_of (snd (cancel (snd (mark_as_paid (shop_with_order Pending 1) 1 (order_row Pending))) 1
          (order_row Paid))) 1 = Some 3
   \<and> fst (cancel_order (snd (mark_as_paid (shop_with_order Pending 1) 1 (order_row Pending))) 1
          (Some 7)) = Inr 1
   \<and> stock_of (snd (cancel_order (snd (mark_as_paid (shop_with_order Pending 1) 1
          (order_row Pending))) 1 (Some 7))) 1 = Some 3"
  by (simp add: cancel_defs mark_as_paid_def product_reduce_stock_def reduce_stock_def
        cancel_order_def cancel_order_body_def atomic_def get_order_details_def log_def)

text \<open>
  Claim C8, as the code has it. For an order the caller may cancel, \<^verbatim>\<open>cancel_order\<close>
  fails with the message of the status check, and leaves every table as it was, when the
  status is \<^verbatim>\<open>shipped\<close> or \<^verbatim>\<open>delivered\<close>; from \<^verbatim>\<open>pending\<close>, \<^verbatim>\<open>processing\<close> and
  \<^verbatim>\<open>cancelled\<close> it returns the order with status \<^verbatim>\<open>cancelled\<close>; from \<^verbatim>\<open>paid\<close> the status
  check never fails, the order is \<^verbatim>\<open>cancelled\<close> unless the stock restoration raised, and
  when the restoration has succeeded the call returns the order with status \<^verbatim>\<open>cancelled\<close>.
\<close>

theorem cancel_order_refused_iff:
  assumes "orders s oid = Some row" "usr = None \<or> usr = Some (user row)"
  shows "(status row = Shipped \<or> status row = Delivered \<longrightarrow>
            fst (cancel_order s oid usr) = Inl (ValidationError ''Cannot cancel order'')
            \<and> orders (snd (cancel_order s oid usr)) = orders s
            \<and> products (snd (cancel_order s oid usr)) = products s
            \<and> items (snd (cancel_order s oid usr)) = items s
            \<and> payments (snd (cancel_order s oid usr)) = payments s)
       \<and> (status row = Pending \<or> status row = Processing \<or> status row = Cancelled \<longrightarrow>
            fst (cancel_order s oid usr) = Inr oid
            \<and> orders (snd (cancel_order s oid usr)) oid = Some (row\<lparr>status := Cancelled\<rparr>))
       \<and> (status row = Paid \<longrightarrow>
            fst (cancel_order s oid usr) \<noteq> Inl (ValidationError ''Cannot cancel order'')
            \<and> (isl (fst (cancel_order s oid usr)) \<or>
                orders (snd (cancel_order s oid usr)) oid = Some (row\<lparr>status := Cancelled\<rparr>)))
       \<and> (status row = Paid \<and> fst (increase_items s (order_items s oid)) = Inr () \<longrightarrow>
            fst (cancel_order s oid usr) = Inr oid
            \<and> orders (snd (cancel_order s oid usr)) oid = Some (row\<lparr>status := Cancelled\<rparr>))"
proof -
  have a: ?thesis if "status row = Shipped \<or> status row = Delivered"
    using cancel_order_refused [OF assms that] that by auto
  have b: ?thesis if "status row = Pending \<or> status row = Processing \<or> status row = Cancelled"
    using cancel_order_unpaid [OF assms that] that by auto
  have c: ?thesis if paid: "status row = Paid"
  proof -
    obtain r s' where run: "cancel_order s oid usr = (r, s')" by (cases "cancel_order s oid usr")
    have 1: "r \<noteq> Inl (ValidationError ''Cannot cancel order'')"
    proof
      assume r: "r = Inl (ValidationError ''Cannot cancel order'')"
      obtain r1 s1 where c1: "cancel s oid row = (r1, s1)" by (cases "cancel s oid row")
      from run r assms c1 have "r1 = Inl (ValueError ''Cannot cancel order'')
          \<or> r1 = Inl (ValidationError ''Cannot cancel order'')"
        by (auto simp: cancel_order_def cancel_order_body_def atomic_def get_order_details_def
              split: sum.splits error.splits)
      with cancel_paid_error [OF assms(1) paid] c1 show False by auto
    qed
    have 2: "orders s' oid = Some (row\<lparr>status := Cancelled\<rparr>)" if "\<not> isl r"
    proof -
      from that obtain x where "r = Inr x" by (cases r) auto
      with cancel_order_Inr [of s oid usr x s'] run assms(1) obtain s1 where
        "cancel s oid row = (Inr (), s1)" "s' = log Info ''Order cancelled successfully'' s1"
        by auto
      with cancel_paid_Inr(2) [OF assms(1) paid] show ?thesis by (simp add: log_def)
    qed
    have 3: "r = Inr oid" if ok: "fst (increase_items s (order_items s oid)) = Inr ()"
    proof -
      obtain s1 where "increase_items s (order_items s oid) = (Inr (), s1)"
        using ok by (cases "increase_items s (order_items s oid)") simp
      with cancel_paid [OF assms(1) paid]
      have "fst (cancel s oid row) = Inr ()" by simp
      then obtain s2 where "cancel s oid row = (Inr (), s2)"
        by (cases "cancel s oid row") simp
      with run assms show ?thesis
        by (auto simp: cancel_order_def cancel_order_body_def atomic_def get_order_details_def)
    qed
    from 3 have "\<not> isl r" if "fst (increase_items s (order_items s oid)) = Inr ()"
      using that by simp
    with 1 2 3 run paid show ?thesis by auto
  qed
  from a b c show ?thesis by (cases "status row") auto
qed


theorem cancel_order_refused_iff_witness:
  "fst (cancel_order (shop_with_order Shipped 8) 1 (Some 7)) = Inl (ValidationError ''Cannot cancel order'')
   \<and> orders (snd (cancel_order (shop_with_order Shipped 8) 1 (Some 7))) = orders (shop_with_order Shipped 8)
   \<and> fst (cancel_order (shop_with_order Pending 10) 1 (Some 7)) = Inr 1
   \<and> fst (cancel_order (shop_with_order Paid 8) 1 (Some 7)) = Inr 1"
proof -
  let ?row = "\<lambda>st. \<lparr>user = 7, total_amount = 10000, status = st, order_notes = []\<rparr>"
  have shipped: "orders (shop_with_order Shipped 8) 1 = Some (?row Shipped)"
    and pending: "orders (shop_with_order Pending 10) 1 = Some (?row Pending)"
    and paid: "orders (shop_with_order Paid 8) 1 = Some (?row Paid)"
    by (simp_all add: shop_with_order_def)
  have u1: "Some 7 = None \<or> Some 7 = Some (user (?row Shipped))"
    and u2: "Some 7 = None \<or> Some 7 = Some (user (?row Pending))"
    and u3: "Some 7 = None \<or> Some 7 = Some (user (?row Paid))"
    by simp_all
  have restored: "fst (increase_items (shop_with_order Paid 8)
      (order_items (shop_with_order Paid 8) 1)) = Inr ()"
    by (simp add: shop_with_order_def order_items_def product_increase_stock_def
          increase_stock_def Let_def)
  from cancel_order_refused_iff [OF shipped u1] cancel_order_refused_iff [OF pending u2]
       cancel_order_refused_iff [OF paid u3] restored
  show ?thesis by simp
qed

text \<open>
  The claim as written also has \<^verbatim>\<open>cancel_order\<close> fail from \<^verbatim>\<open>processing\<close> and from
  \<^verbatim>\<open>cancelled\<close>. It does not: the guard of \<^verbatim>\<open>Order.cancel\<close> lists \<^verbatim>\<open>shipped\<close> and
  \<^verbatim>\<open>delivered\<close> only.
\<close>

theorem cancel_order_processing_counterexample:
  "fst (cancel_order (shop_with_order Processing 8) 1 (Some 7)) = Inr 1
   \<and> map_option status (orders (snd (cancel_order (shop_with_order Processing 8) 1 (Some 7))) 1)
       = Some Cancelled
   \<and> fst (cancel_order (shop_with_order Cancelled 10) 1 (Some 7)) = Inr 1"
  by (simp add: cancel_order_def cancel_order_body_def atomic_def get_order_details_def
        cancel_def save_status_def shop_with_order_def log_def)

section \<open>Creating an order\<close>



text \<open>
  Claim C7. When \<^verbatim>\<open>create_order\<close> raises, the tables are what they were before the
  call. It raises whenever an item of the request names a missing product, an unavailable
  one, or more than is in stock. When it returns, the order did not exist before, the
  orders table has gained exactly that row, \<^verbatim>\<open>pending\<close> and owned by the user, and the
  items table has gained one row per item of the request, in order.
\<close>

theorem create_order_atomic:
  "(create_order s usr its nts = (Inl e, s') \<longrightarrow>
      products s' = products s \<and> orders s' = orders s \<and> items s' = items s
      \<and> payments s' = payments s)
   \<and> (list_ex (item_invalid s) its \<longrightarrow> isl (fst (create_order s usr its nts)))
   \<and> (create_order s usr its nts = (Inr oid, s') \<longrightarrow>
        orders s oid = None \<and> products s' = products s \<and> payments s' = payments s
        \<and> (\<exists>row new. orders s' = (orders s)(oid \<mapsto> row) \<and> status row = Pending
               \<and> user row = usr \<and> items s' = items s @ new
               \<and> list_all2 (new_item s oid) its new))"
proof -
  have a: "products s' = products s \<and> orders s' = orders s \<and> items s' = items s
      \<and> payments s' = payments s"
    if "create_order s usr its nts = (Inl e, s')"
    using create_order_Inl [OF that] by simp
  have b: "isl (fst (create_order s usr its nts))" if bad: "list_ex (item_invalid s) its"
  proof -
    let ?oid = "Suc (order_seq s)"
    let ?s2 = "log Info ''Creating order''
               (s\<lparr>orders := (orders s)(?oid \<mapsto>
                    \<lparr>user = usr, total_amount = 0, status = Pending, order_notes = nts\<rparr>),
                  order_seq := ?oid\<rparr>)"
    have "products ?s2 = products s" by simp
    from item_invalid_cong [OF this] bad have "list_ex (item_invalid ?s2) its"
      by (simp add: list_ex_iff)
    from add_items_invalid [OF this, of ?oid]
    have "isl (fst (add_items ?s2 ?oid its))" .
    then have "isl (fst (create_order_body usr its nts s))"
      by (cases "add_items ?s2 ?oid its")
         (auto simp: create_order_body_def Let_def split: sum.splits)
    then show ?thesis
      by (cases "create_order_body usr its nts s")
         (auto simp: create_order_def atomic_def split: sum.splits)
  qed
  have c: "orders s oid = None \<and> products s' = products s \<and> payments s' = payments s
        \<and> (\<exists>row new. orders s' = (orders s)(oid \<mapsto> row) \<and> status row = Pending
               \<and> user row = usr \<and> items s' = items s @ new
               \<and> list_all2 (new_item s oid) its new)"
    if run: "create_order s usr its nts = (Inr oid, s')"
  proof -
    from create_order_result [OF run] obtain row new where
      r: "orders s oid = None" "products s' = products s" "payments s' = payments s"
        "\<forall>k. k \<noteq> oid \<longrightarrow> orders s' k = orders s k"
        "orders s' oid = Some row" "status row = Pending" "user row = usr"
        "items s' = items s @ new" "list_all2 (new_item s oid) its new"
      by blast
    from r(4,5) have "orders s' = (orders s)(oid \<mapsto> row)" by (intro ext) simp
    with r show ?thesis by blast
  qed
  from a b c show ?thesis by blast
qed

theorem create_order_atomic_witness:
  "isl (fst (create_order shop 7 [(1, 2), (1, 11)] []))
   \<and> orders (snd (create_order shop 7 [(1, 2), (1, 11)] [])) = orders shop
   \<and> items (snd (create_order shop 7 [(1, 2), (1, 11)] [])) = items shop
   \<and> (\<exists>row. orders (snd (create_order shop 7 [(1, 2)] [])) = (orders shop)(1 \<mapsto> row))"
proof -
  have bad: "list_ex (item_invalid shop) [(1, 2), (1, 11)]"
    by (simp add: shop_def is_available_def)
  have run: "create_order shop 7 [(1, 2)] [] = (Inr 1, snd (create_order shop 7 [(1, 2)] []))"
    using create_order_shop by (cases "create_order shop 7 [(1, 2)] []") simp
  let ?bad = "create_order shop 7 [(1, 2), (1, 11)] []"
  from create_order_atomic [where s = shop and usr = 7 and its = "[(1, 2), (1, 11)]"
         and nts = "[]", THEN conjunct2, THEN conjunct1, THEN mp, OF bad]
  have failed: "isl (fst ?bad)" .
  then obtain e where fail: "?bad = (Inl e, snd ?bad)"
    by (cases ?bad) (auto simp: isl_def)
  from create_order_atomic [where s = shop and usr = 7 and its = "[(1, 2), (1, 11)]"
         and nts = "[]" and e = e and s' = "snd ?bad", THEN conjunct1, THEN mp, OF fail]
  have unchanged: "orders (snd ?bad) = orders shop" "items (snd ?bad) = items shop"
    by simp_all
  from create_order_atomic [where s = shop and usr = 7 and its = "[(1, 2)]" and nts = "[]"
         and oid = 1 and s' = "snd (create_order shop 7 [(1, 2)] [])",
         THEN conjunct2, THEN conjunct2, THEN mp, OF run]
  have "\<exists>row. orders (snd (create_order shop 7 [(1, 2)] [])) = (orders shop)(1 \<mapsto> row)"
    by blast
  with failed unchanged show ?thesis by simp
qed

section \<open>Checkout\<close>

lemmas checkout_defs =
  create_order_and_initiate_payment_def atomic_def checkout_body_def validate_order_items_def
  create_order_def create_order_body_def shop_def Let_def log_def is_available_def
  order_item_create_def recalculate_and_save_def calculate_subtotal_def calculate_total_def
  order_items_def can_proceed_to_payment_def initiate_payment_def get_payment_strategy_def
  lower_def lower_char_def declining_gateway_def checkout_view_def

text \<open>
  Whatever \<^verbatim>\<open>create_order_and_initiate_payment\<close> raises, its \<^verbatim>\<open>@transaction.atomic\<close>
  takes the tables back to what they were before the call.
\<close>

lemma checkout_failure_restores_tables:
  "create_order_and_initiate_payment s usr its prov nts gateway = (Inl e, s') \<Longrightarrow>
     products s' = products s \<and> orders s' = orders s \<and> items s' = items s
     \<and> payments s' = payments s"
  by (auto simp: create_order_and_initiate_payment_def atomic_def split: prod.splits sum.splits)

text \<open>
  Claim C1, on the code. User 7 checks out two of product 1 with Stripe, and Stripe
  refuses to create the payment. \<^verbatim>\<open>create_order\<close> alone, on the same request, returns
  order 1, \<^verbatim>\<open>pending\<close>. The checkout raises \<^verbatim>\<open>ValidationError\<close> (HTTP 400 from
  \<^verbatim>\<open>checkout_view\<close>), and afterwards there is no order 1 and no item row: the order was
  rolled back with the rest of the transaction, where the claim has it persist as
  \<^verbatim>\<open>pending\<close>.
\<close>

theorem checkout_provider_failure_rolls_back:
  "fst (create_order shop 7 [(1, 2)] []) = Inr 1
   \<and> map_option status (orders (snd (create_order shop 7 [(1, 2)] [])) 1) = Some Pending
   \<and> fst (create_order_and_initiate_payment shop 7 [(1, 2)] ''stripe'' [] declining_gateway)
       = Inl (ValidationError ''Payment initiation failed'')
   \<and> orders (snd (create_order_and_initiate_payment shop 7 [(1, 2)] ''stripe'' []
        declining_gateway)) 1 = None
   \<and> items (snd (create_order_and_initiate_payment shop 7 [(1, 2)] ''stripe'' []
        declining_gateway)) = []
   \<and> fst (checkout_view shop 7 [(1, 2)] ''stripe'' [] declining_gateway) = 400
   \<and> orders (snd (checkout_view shop 7 [(1, 2)] ''stripe'' [] declining_gateway)) 1 = None"
  by (simp add: checkout_defs)

section \<open>Payment status\<close>

lemmas payment_view_defs =
  stripe_webhook_view_def payment_status_view_def confirm_payment_view_def
  payment_status_begin_def payment_status_finish_def confirm_payment_begin_def
  confirm_payment_finish_def load_payment_def
  refund_payment_view_def get_payment_def payments_with_def shop_with_payment_def
  shop_with_order_def mark_as_success_def mark_as_failed_def mark_as_paid_def save_status_def
  order_items_def product_reduce_stock_def reduce_stock_def new_raw_response_def
  get_payment_strategy_def lower_def lower_char_def is_pending_def can_be_refunded_def
  log_def Let_def

text \<open>
  Claim C2, on the code. A payment is \<^verbatim>\<open>success\<close> with \<^verbatim>\<open>completed_at\<close> 100. A second
  \<^verbatim>\<open>payment_intent.succeeded\<close> webhook at time 200 is answered with HTTP 200 and the
  payment row then has \<^verbatim>\<open>completed_at\<close> 200 and the webhook's payload as
  \<^verbatim>\<open>raw_response\<close>: \<^verbatim>\<open>stripe_webhook_view\<close> calls \<^verbatim>\<open>mark_as_success\<close> whatever the
  status. The status poll, which tests \<^verbatim>\<open>payment.status != 'success'\<close> first, leaves the
  payments table as it is on the same payment.
\<close>

theorem duplicate_success_webhook_overwrites_completed_at:
  "map_option completed_at (payments (shop_with_payment Paid Success (Some 100)) 1) = Some (Some 100)
   \<and> fst (stripe_webhook_view (shop_with_payment Paid Success (Some 100))
          (Webhook_event ''payment_intent.succeeded'' ''pi_1'' Error_absent ''event'') 200) = 200
   \<and> map_option completed_at
        (payments (snd (stripe_webhook_view (shop_with_payment Paid Success (Some 100))
          (Webhook_event ''payment_intent.succeeded'' ''pi_1'' Error_absent ''event'') 200)) 1)
       = Some (Some 200)
   \<and> map_option raw_response
        (payments (snd (stripe_webhook_view (shop_with_payment Paid Success (Some 100))
          (Webhook_event ''payment_intent.succeeded'' ''pi_1'' Error_absent ''event'') 200)) 1)
       = Some ''event''
   \<and> payments (snd (payment_status_view (shop_with_payment Paid Success (Some 100)) 7 False
          ''pi_1'' (Answer_ok ''succeeded'' (Some ''polled'')) 200))
       = payments (shop_with_payment Paid Success (Some 100))"
  by (simp add: payment_view_defs)

text \<open>
  Claim C5, on the code. A \<^verbatim>\<open>failed\<close> payment becomes \<^verbatim>\<open>success\<close> (and its pending
  order \<^verbatim>\<open>paid\<close>) on a \<^verbatim>\<open>payment_intent.succeeded\<close> webhook; a \<^verbatim>\<open>refunded\<close> payment
  becomes \<^verbatim>\<open>success\<close>, or \<^verbatim>\<open>failed\<close>, on a status poll that reports so; a
  \<^verbatim>\<open>cancelled\<close> payment becomes \<^verbatim>\<open>success\<close> on a poll. The user confirmation and the
  refund do refuse such payments, with HTTP 400 and no change.
\<close>

theorem terminal_payment_status_changes:
  "map_option pay_status
        (payments (snd (stripe_webhook_view (shop_with_payment Pending Failed (Some 100))
          (Webhook_event ''payment_intent.succeeded'' ''pi_1'' Error_absent ''event'') 200)) 1)
       = Some Success
   \<and> map_option status
        (orders (snd (stripe_webhook_view (shop_with_payment Pending Failed (Some 100))
          (Webhook_event ''payment_intent.succeeded'' ''pi_1'' Error_absent ''event'') 200)) 1)
       = Some Paid
   \<and> map_option pay_status
        (payments (snd (payment_status_view (shop_with_payment Paid Refunded (Some 100)) 7 False
          ''pi_1'' (Answer_ok ''succeeded'' None) 200)) 1)
       = Some Success
   \<and> map_option pay_status
        (payments (snd (payment_status_view (shop_with_payment Paid Refunded (Some 100)) 7 False
          ''pi_1'' (Answer_ok ''failed'' None) 200)) 1)
       = Some Failed
   \<and> map_option pay_status
        (payments (snd (payment_status_view (shop_with_payment Cancelled Pay_cancelled None) 7 False
          ''pi_1'' (Answer_ok ''succeeded'' None) 200)) 1)
       = Some Success
   \<and> fst (confirm_payment_view (shop_with_payment Pending Failed (Some 100)) 7 False ''pi_1''
          (Answer_ok ''succeeded'' None) 200) = 400
   \<and> payments (snd (confirm_payment_view (shop_with_payment Pending Failed (Some 100)) 7 False
          ''pi_1'' (Answer_ok ''succeeded'' None) 200))
       = payments (shop_with_payment Pending Failed (Some 100))
   \<and> fst (refund_payment_view (shop_with_payment Paid Refunded (Some 100)) True 1
          (Refund_ok ''re_1'')) = 400"
  by (simp add: payment_view_defs)

end
